theory Spec2Isabelle
  imports Main
begin

section \<open>Python results: a returned value or a raised exception\<close>

text \<open>
  The exception classes the three modules can meet. \<open>PortExhausted\<close> is the plain
  \<open>Exception\<close> that \<open>find_available_port\<close> raises after its last attempt;
  \<open>OtherException\<close> stands for any exception that is not an \<open>OSError\<close>
  (for instance the \<open>OverflowError\<close> of a bind to a port number outside 0..65535).
\<close>

datatype exc =
    OSError
  | CalledProcessError
  | TimeoutExpired
  | RuntimeError
  | IndexError
  | AttributeError
  | PortExhausted
  | OtherException

datatype 'a res = Ret 'a | Raise exc

section \<open>Python strings\<close>

text \<open>
  A Python \<open>str\<close> is modelled as a HOL \<open>string\<close>; a character is read as a code
  point below 256. \<open>py_isspace\<close> is \<open>str.isspace\<close> on one character,
  \<open>py_strip\<close> is \<open>str.strip()\<close>, \<open>py_lower\<close> is \<open>str.lower()\<close>,
  \<open>str_in sub s\<close> is \<open>sub in s\<close>, \<open>split_on c s\<close> is \<open>s.split(c)\<close> for a
  one-character separator, and \<open>str_int\<close> is the decimal text of an integer as an
  f-string writes it.
\<close>

definition py_isspace :: "char \<Rightarrow> bool" where
  "py_isspace c = ((of_char c :: nat) \<in> {9, 10, 11, 12, 13, 28, 29, 30, 31, 32, 133, 160})"

definition py_strip :: "string \<Rightarrow> string" where
  "py_strip s = rev (dropWhile py_isspace (rev (dropWhile py_isspace s)))"



fun starts_with :: "string \<Rightarrow> string \<Rightarrow> bool" where
  "starts_with s [] = True"
| "starts_with [] (p # ps) = False"
| "starts_with (c # cs) (p # ps) = (c = p \<and> starts_with cs ps)"

fun str_in :: "string \<Rightarrow> string \<Rightarrow> bool" where
  "str_in sub [] = (sub = [])"
| "str_in sub (c # cs) = (starts_with (c # cs) sub \<or> str_in sub cs)"

fun split_on :: "char \<Rightarrow> string \<Rightarrow> string list" where
  "split_on sep [] = [[]]"
| "split_on sep (c # cs) =
     (if c = sep then [] # split_on sep cs
      else (case split_on sep cs of
              [] \<Rightarrow> [[c]]
            | w # ws \<Rightarrow> (c # w) # ws))"

definition digit_chars :: string where
  "digit_chars = ''0123456789''"

function str_nat :: "nat \<Rightarrow> string" where
  "str_nat n =
     (if n < 10 then [digit_chars ! n]
      else str_nat (n div 10) @ [digit_chars ! (n mod 10)])"
  by pat_completeness auto
termination
  by (relation "measure id") auto

definition str_int :: "int \<Rightarrow> string" where
  "str_int i = (if i < 0 then CHR ''-'' # str_nat (nat (- i)) else str_nat (nat i))"

definition py_index :: "'a list \<Rightarrow> nat \<Rightarrow> 'a res" where
  "py_index xs i = (if i < length xs then Ret (xs ! i) else Raise IndexError)"

section \<open>External commands\<close>

text \<open>
  \<open>subprocess.run\<close> either completes, with an exit status and the captured output, or
  raises (the executable is missing, say); \<open>RunRaised msg\<close> carries \<open>str(e)\<close>. The
  environment maps the argument vector of a call to its outcome.
\<close>

type_synonym argv = "string list"

record completed =
  returncode :: int
  stdout :: string
  stderr :: string

datatype run_outcome = Ran completed | RunRaised string

section \<open>adb\_manager.py\<close>


text \<open>The truth value of \<open>if device_id:\<close>: neither \<open>None\<close> nor the empty string.\<close>

definition adb_argv :: "string \<Rightarrow> string option \<Rightarrow> string list \<Rightarrow> argv" where
  "adb_argv path device_id command =
     [path] @ (case device_id of
                 None \<Rightarrow> []
               | Some d \<Rightarrow> if d = [] then [] else [''-s'', d]) @ command"

definition run_adb_command ::
  "(argv \<Rightarrow> run_outcome) \<Rightarrow> string \<Rightarrow> string list \<Rightarrow> string option \<Rightarrow> bool \<times> string" where
  "run_adb_command env path command device_id =
     (case env (adb_argv path device_id command) of
        Ran result \<Rightarrow>
          (returncode result = 0,
           if returncode result = 0 then stdout result else stderr result)
      | RunRaised msg \<Rightarrow> (False, msg))"

subsection \<open>get\_devices\<close>

record device =
  d_id :: string
  d_state :: string
  d_is_tcp :: bool

text \<open>
  The loop over the lines after the first: a line whose \<open>strip()\<close> is non-empty and
  which has at least two tab-separated parts appends an entry.
\<close>

fun device_lines :: "string list \<Rightarrow> device list res" where
  "device_lines [] = Ret []"
| "device_lines (line # rest) =
     (if py_strip line \<noteq> [] then
        (let parts = split_on (CHR 0x09) line in
         if length parts \<ge> 2 then
           (case py_index parts 0 of
              Raise e \<Rightarrow> Raise e
            | Ret p0 \<Rightarrow>
           (case py_index parts 1 of
              Raise e \<Rightarrow> Raise e
            | Ret p1 \<Rightarrow>
           (case device_lines rest of
              Raise e \<Rightarrow> Raise e
            | Ret ds \<Rightarrow>
                Ret (\<lparr>d_id = p0, d_state = p1, d_is_tcp = str_in '':'' p0\<rparr> # ds))))
         else device_lines rest)
      else device_lines rest)"

definition get_devices :: "(argv \<Rightarrow> run_outcome) \<Rightarrow> string \<Rightarrow> device list res" where
  "get_devices env path =
     (let (success, output) = run_adb_command env path [''devices''] None in
      if \<not> success then Ret []
      else device_lines (drop 1 (split_on (CHR 0x0A) output)))"

subsection \<open>get\_device\_ip\<close>

text \<open>
  The pattern \<open>src (\d+\.\d+\.\d+\.\d+)\<close> is a sequence of literal characters and
  greedy digit runs. \<open>match_atoms p s\<close> lists the remainders of \<open>s\<close> after every
  way of matching \<open>p\<close> at its start, in the order a backtracking matcher tries them
  (longest digit run first); \<open>re_search\<close> returns the text of the first match at the
  leftmost position that has one. Among code points below 256, \<open>\d\<close> is 0 to 9.
\<close>

datatype atom = Lit char | Digits

definition is_digit :: "char \<Rightarrow> bool" where
  "is_digit c = (48 \<le> (of_char c :: nat) \<and> (of_char c :: nat) \<le> 57)"

fun match_atoms :: "atom list \<Rightarrow> string \<Rightarrow> string list" where
  "match_atoms [] s = [s]"
| "match_atoms (Lit c # p) s =
     (case s of
        [] \<Rightarrow> []
      | x # xs \<Rightarrow> if x = c then match_atoms p xs else [])"
| "match_atoms (Digits # p) s =
     concat (map (\<lambda>k. match_atoms p (drop k s))
                 (rev [1..<Suc (length (takeWhile is_digit s))]))"

fun re_search :: "atom list \<Rightarrow> string \<Rightarrow> string option" where
  "re_search p [] =
     (case match_atoms p [] of
        [] \<Rightarrow> None
      | r # _ \<Rightarrow> Some [])"
| "re_search p (c # cs) =
     (case match_atoms p (c # cs) of
        [] \<Rightarrow> re_search p cs
      | r # _ \<Rightarrow> Some (take (length (c # cs) - length r) (c # cs)))"

definition src_prefix :: string where
  "src_prefix = ''src ''"

definition ip_atoms :: "atom list" where
  "ip_atoms = [Digits, Lit CHR ''.'', Digits, Lit CHR ''.'', Digits, Lit CHR ''.'', Digits]"

definition src_pattern :: "atom list" where
  "src_pattern = map Lit src_prefix @ ip_atoms"

text \<open>
  \<open>match.group(1)\<close> is the matched text without the four literal characters in front
  of the group.
\<close>

definition get_device_ip :: "(argv \<Rightarrow> run_outcome) \<Rightarrow> string \<Rightarrow> string option" where
  "get_device_ip env path =
     (let (success, output) = run_adb_command env path [''shell'', ''ip'', ''route''] None in
      if \<not> success then None
      else (case re_search src_pattern output of
              None \<Rightarrow> None
            | Some m \<Rightarrow> Some (drop (length src_prefix) m)))"

subsection \<open>connect\_to\_device\<close>


section \<open>scrcpy.py: probing for a free local port\<close>

definition BASE_PORT :: int where
  "BASE_PORT = 6666"

text \<open>
  What \<open>socket.socket(...)\<close> followed by \<open>s.bind(('127.0.0.1', port))\<close> does for a
  port: it binds, it raises \<open>OSError\<close> (the port is occupied), or it raises something
  else. The environment is the table of these outcomes.
\<close>

datatype bind_outcome = Bound | BindOSError | BindOtherError

definition py_range :: "int \<Rightarrow> nat list" where
  "py_range n = [0..<nat n]"

text \<open>
  The body of \<open>for i in range(max_attempts)\<close>: \<open>return port\<close> on a successful bind,
  \<open>continue\<close> on \<open>OSError\<close>, and the \<open>raise Exception(...)\<close> after the loop.
\<close>

fun probe_ports :: "(int \<Rightarrow> bind_outcome) \<Rightarrow> int \<Rightarrow> nat list \<Rightarrow> int res" where
  "probe_ports bind start_port [] = Raise PortExhausted"
| "probe_ports bind start_port (i # rest) =
     (let port = start_port + int i in
      case bind port of
        Bound \<Rightarrow> Ret port
      | BindOSError \<Rightarrow> probe_ports bind start_port rest
      | BindOtherError \<Rightarrow> Raise OtherException)"

definition find_available_port :: "(int \<Rightarrow> bind_outcome) \<Rightarrow> int \<Rightarrow> int \<Rightarrow> int res" where
  "find_available_port bind start_port max_attempts =
     probe_ports bind start_port (py_range max_attempts)"

text \<open>The call with the default arguments \<open>start_port=BASE_PORT, max_attempts=100\<close>.\<close>

definition find_available_port_default :: "(int \<Rightarrow> bind_outcome) \<Rightarrow> int res" where
  "find_available_port_default bind = find_available_port bind BASE_PORT 100"

section \<open>The outside world of a mirroring session\<close>

text \<open>
  A session acts on sockets, threads, child processes and the adb tool. The world records
  what exists (\<open>open_socks\<close>: sockets created and not closed; \<open>alive_threads\<close>:
  threads started and still running; \<open>live_procs\<close>: child processes spawned and not
  yet exited), every argument vector handed to \<open>subprocess.run\<close> or
  \<open>subprocess.Popen\<close> (\<open>cmds\<close>, oldest first), and a clock that counts the library
  calls. The environment answers each call, indexed by the clock, with one of the
  outcomes the library documents for it; so two calls of the same operation may differ.
\<close>

record world =
  clock :: nat
  cmds :: "argv list"
  open_socks :: "nat set"
  alive_threads :: "nat set"
  live_procs :: "nat set"
  next_id :: nat

datatype join_outcome = Joined | StillAlive | JoinRaises

datatype wait_outcome = Exited | WaitTimeout | WaitRaises

record env =
  run_out :: "nat \<Rightarrow> argv \<Rightarrow> run_outcome"
  bind_out :: "int \<Rightarrow> bind_outcome"
  socket_ok :: "nat \<Rightarrow> bool"
  connect_ok :: "nat \<Rightarrow> bool"
  shutdown_ok :: "nat \<Rightarrow> bool"
  close_ok :: "nat \<Rightarrow> bool"
  start_ok :: "nat \<Rightarrow> bool"
  popen_ok :: "nat \<Rightarrow> bool"
  join_out :: "nat \<Rightarrow> join_outcome"
  terminate_ok :: "nat \<Rightarrow> bool"
  wait_out :: "nat \<Rightarrow> wait_outcome"
  kill_ok :: "nat \<Rightarrow> bool"

definition tick :: "world \<Rightarrow> world" where
  "tick w = w\<lparr>clock := clock w + 1\<rparr>"

text \<open>
  \<open>subprocess.run(cmd, check=...)\<close>: the call is recorded; it raises \<open>OSError\<close> when
  the program cannot be run, and \<open>CalledProcessError\<close> on a non-zero exit status when
  \<open>check\<close> is set.
\<close>

definition subprocess_run :: "env \<Rightarrow> bool \<Rightarrow> argv \<Rightarrow> world \<Rightarrow> completed res \<times> world" where
  "subprocess_run E check cmd w =
     (let w' = tick (w\<lparr>cmds := cmds w @ [cmd]\<rparr>) in
      case run_out E (clock w) cmd of
        RunRaised msg \<Rightarrow> (Raise OSError, w')
      | Ran result \<Rightarrow>
          if check \<and> returncode result \<noteq> 0 then (Raise CalledProcessError, w')
          else (Ret result, w'))"

text \<open>Sockets: \<open>socket.socket()\<close>, \<open>connect\<close>, \<open>shutdown\<close>, \<open>close\<close>. Each raises
  \<open>OSError\<close> or succeeds; \<open>close\<close> releases the descriptor even when it raises.\<close>

definition socket_new :: "env \<Rightarrow> world \<Rightarrow> nat res \<times> world" where
  "socket_new E w =
     (if socket_ok E (clock w)
      then (Ret (next_id w),
            tick (w\<lparr>open_socks := insert (next_id w) (open_socks w), next_id := next_id w + 1\<rparr>))
      else (Raise OSError, tick w))"

definition sock_connect :: "env \<Rightarrow> nat \<Rightarrow> int \<Rightarrow> world \<Rightarrow> unit res \<times> world" where
  "sock_connect E h port w = (if connect_ok E (clock w) then Ret () else Raise OSError, tick w)"

definition sock_shutdown :: "env \<Rightarrow> nat \<Rightarrow> world \<Rightarrow> unit res \<times> world" where
  "sock_shutdown E h w = (if shutdown_ok E (clock w) then Ret () else Raise OSError, tick w)"

definition sock_close :: "env \<Rightarrow> nat \<Rightarrow> world \<Rightarrow> unit res \<times> world" where
  "sock_close E h w =
     (if close_ok E (clock w) then Ret () else Raise OSError,
      tick (w\<lparr>open_socks := open_socks w - {h}\<rparr>))"

text \<open>Threads: the constructor only makes the object; \<open>start\<close> raises
  \<open>RuntimeError\<close> or sets the thread running; \<open>join(timeout=3)\<close> returns with the
  thread finished or still alive, or raises.\<close>

definition thread_new :: "world \<Rightarrow> nat \<times> world" where
  "thread_new w = (next_id w, w\<lparr>next_id := next_id w + 1\<rparr>)"

definition thread_start :: "env \<Rightarrow> nat \<Rightarrow> world \<Rightarrow> unit res \<times> world" where
  "thread_start E t w =
     (if start_ok E (clock w)
      then (Ret (), tick (w\<lparr>alive_threads := insert t (alive_threads w)\<rparr>))
      else (Raise RuntimeError, tick w))"

definition is_alive :: "nat \<Rightarrow> world \<Rightarrow> bool" where
  "is_alive t w = (t \<in> alive_threads w)"

definition thread_join :: "env \<Rightarrow> nat \<Rightarrow> world \<Rightarrow> unit res \<times> world" where
  "thread_join E t w =
     (case join_out E (clock w) of
        Joined \<Rightarrow> (Ret (), tick (w\<lparr>alive_threads := alive_threads w - {t}\<rparr>))
      | StillAlive \<Rightarrow> (Ret (), tick w)
      | JoinRaises \<Rightarrow> (Raise RuntimeError, tick w))"

text \<open>Child processes: \<open>terminate\<close> and \<open>kill\<close> send a signal or raise;
  \<open>wait(timeout=3)\<close> returns when the process has exited, raises
  \<open>TimeoutExpired\<close>, or raises something else. A killed process is gone.\<close>

definition proc_terminate :: "env \<Rightarrow> nat \<Rightarrow> world \<Rightarrow> unit res \<times> world" where
  "proc_terminate E p w = (if terminate_ok E (clock w) then Ret () else Raise OSError, tick w)"

definition proc_wait :: "env \<Rightarrow> nat \<Rightarrow> world \<Rightarrow> unit res \<times> world" where
  "proc_wait E p w =
     (case wait_out E (clock w) of
        Exited \<Rightarrow> (Ret (), tick (w\<lparr>live_procs := live_procs w - {p}\<rparr>))
      | WaitTimeout \<Rightarrow> (Raise TimeoutExpired, tick w)
      | WaitRaises \<Rightarrow> (Raise OtherException, tick w))"

definition proc_kill :: "env \<Rightarrow> nat \<Rightarrow> world \<Rightarrow> unit res \<times> world" where
  "proc_kill E p w =
     (if kill_ok E (clock w)
      then (Ret (), tick (w\<lparr>live_procs := live_procs w - {p}\<rparr>))
      else (Raise OSError, tick w))"

section \<open>scrcpy.py: the session\<close>

definition SCRCPY_SERVER_PATH :: string where
  "SCRCPY_SERVER_PATH = ''scrcpy-server''"

definition DEVICE_SERVER_PATH :: string where
  "DEVICE_SERVER_PATH = ''/data/local/tmp/scrcpy-server.jar''"

text \<open>
  The fields of \<open>Scrcpy\<close>. A socket, thread or process field holds \<open>None\<close> or a
  handle; \<open>stop\<close>, \<open>video_bit_rate\<close> and \<open>video_callback\<close> do not exist before
  the first start or stop (\<open>None\<close> here); the callback is an opaque reference.
\<close>

record scrcpy =
  video_socket :: "nat option"
  audio_socket :: "nat option"
  control_socket :: "nat option"
  android_thread :: "nat option"
  video_thread :: "nat option"
  audio_thread :: "nat option"
  control_thread :: "nat option"
  android_process :: "nat option"
  sc_adb_path :: string
  device_id :: "string option"
  local_port :: "int option"
  stop :: "bool option"
  video_bit_rate :: "string option"
  video_callback :: "nat option"

definition Scrcpy_init :: "string \<Rightarrow> scrcpy" where
  "Scrcpy_init path =
     \<lparr>video_socket = None, audio_socket = None, control_socket = None,
      android_thread = None, video_thread = None, audio_thread = None, control_thread = None,
      android_process = None, sc_adb_path = path, device_id = None, local_port = None,
      stop = None, video_bit_rate = None, video_callback = None\<rparr>"

subsection \<open>Statements with state and exceptions\<close>

text \<open>
  A method body maps the state (the session and the world) to a result and the new
  state; the state changes made before an exception is raised stay. \<open>pbind\<close> is
  sequencing, \<open>catch_if c\<close> is \<open>try ... except\<close> for the exception classes \<open>c\<close>,
  and \<open>try_finally\<close> is \<open>try ... finally\<close>.
\<close>

type_synonym state = "scrcpy \<times> world"

type_synonym 'a prog = "state \<Rightarrow> 'a res \<times> state"

definition ret :: "'a \<Rightarrow> 'a prog" where
  "ret x st = (Ret x, st)"

definition pbind :: "'a prog \<Rightarrow> ('a \<Rightarrow> 'b prog) \<Rightarrow> 'b prog" where
  "pbind m f st = (case m st of (Ret x, st') \<Rightarrow> f x st' | (Raise e, st') \<Rightarrow> (Raise e, st'))"

definition catch_if :: "(exc \<Rightarrow> bool) \<Rightarrow> 'a prog \<Rightarrow> (exc \<Rightarrow> 'a prog) \<Rightarrow> 'a prog" where
  "catch_if c m handler st =
     (case m st of
        (Ret x, st') \<Rightarrow> (Ret x, st')
      | (Raise e, st') \<Rightarrow> if c e then handler e st' else (Raise e, st'))"

definition try_finally :: "'a prog \<Rightarrow> unit prog \<Rightarrow> 'a prog" where
  "try_finally m fin st =
     (case m st of
        (r, st') \<Rightarrow> (case fin st' of (Ret u, st'') \<Rightarrow> (r, st'') | (Raise e, st'') \<Rightarrow> (Raise e, st'')))"

definition on_world :: "(world \<Rightarrow> 'a res \<times> world) \<Rightarrow> 'a prog" where
  "on_world op st = (case op (snd st) of (r, w') \<Rightarrow> (r, (fst st, w')))"

definition modify :: "(scrcpy \<Rightarrow> scrcpy) \<Rightarrow> unit prog" where
  "modify f st = (Ret (), (f (fst st), snd st))"

text \<open>The exception classes of the handlers: every modelled exception is an
  \<open>Exception\<close>; \<open>socket.error\<close> is \<open>OSError\<close>.\<close>

definition is_Exception :: "exc \<Rightarrow> bool" where
  "is_Exception e = True"

definition is_OSError :: "exc \<Rightarrow> bool" where
  "is_OSError e = (e = OSError)"

definition is_TimeoutExpired :: "exc \<Rightarrow> bool" where
  "is_TimeoutExpired e = (e = TimeoutExpired)"

text \<open>\<open>cmd = [self.adb_path]\<close>, extended by \<open>-s device_id\<close> when the id is set,
  then by the command.\<close>

definition session_cmd :: "scrcpy \<Rightarrow> string list \<Rightarrow> argv" where
  "session_cmd s command = adb_argv (sc_adb_path s) (device_id s) command"

subsection \<open>cleanup\_adb\_forward\<close>

text \<open>The truth value of \<open>if self.local_port:\<close>: neither \<open>None\<close> nor 0.\<close>

definition port_truthy :: "int option \<Rightarrow> bool" where
  "port_truthy p = (case p of None \<Rightarrow> False | Some n \<Rightarrow> n \<noteq> 0)"

definition forward_remove_cmd :: "scrcpy \<Rightarrow> argv" where
  "forward_remove_cmd s =
     session_cmd s [''forward'', ''--remove'', ''tcp:'' @ str_int (the (local_port s))]"

definition cleanup_adb_forward :: "env \<Rightarrow> unit prog" where
  "cleanup_adb_forward E st =
     (if port_truthy (local_port (fst st)) then
        try_finally
          (catch_if is_Exception
             (pbind (on_world (subprocess_run E False (forward_remove_cmd (fst st))))
                    (\<lambda>result. ret ()))
             (\<lambda>e. ret ()))
          (modify (\<lambda>s. s\<lparr>local_port := None\<rparr>))
          st
      else (Ret (), st))"

subsection \<open>push\_server\_to\_device, setup\_adb\_forward, start\_server\<close>

definition push_cmd :: "scrcpy \<Rightarrow> argv" where
  "push_cmd s = session_cmd s [''push'', SCRCPY_SERVER_PATH, DEVICE_SERVER_PATH]"

definition push_server_to_device :: "env \<Rightarrow> bool prog" where
  "push_server_to_device E st =
     pbind (on_world (subprocess_run E False (push_cmd (fst st))))
           (\<lambda>result. if returncode result \<noteq> 0 then ret False else ret True)
           st"

definition forward_cmd :: "scrcpy \<Rightarrow> argv" where
  "forward_cmd s =
     session_cmd s [''forward'', ''tcp:'' @ str_int (the (local_port s)), ''localabstract:scrcpy'']"

definition setup_adb_forward :: "env \<Rightarrow> unit prog" where
  "setup_adb_forward E =
     pbind (cleanup_adb_forward E) (\<lambda>u.
     pbind (\<lambda>st. (find_available_port_default (bind_out E), st)) (\<lambda>port.
     pbind (modify (\<lambda>s. s\<lparr>local_port := Some port\<rparr>)) (\<lambda>u st.
     pbind (on_world (subprocess_run E True (forward_cmd (fst st)))) (\<lambda>result. ret ()) st)))"

definition server_cmd :: "scrcpy \<Rightarrow> argv" where
  "server_cmd s =
     session_cmd s
       [''shell'',
        ''CLASSPATH='' @ DEVICE_SERVER_PATH
          @ '' app_process / com.genymobile.scrcpy.Server 3.1 tunnel_forward=true log_level=VERBOSE video_bit_rate=''
          @ the (video_bit_rate s)]"

text \<open>
  \<open>start_server\<close> runs on the launcher thread. Its first step, the \<open>Popen\<close> that
  sets \<open>android_process\<close>, is taken to happen while the starting thread sleeps for
  one second; if \<open>Popen\<close> raises, the launcher thread ends at once. The rest of the
  body (reading the diagnostic stream, waiting for the exit) goes on in the background
  for as long as the thread is alive.
\<close>

definition start_server :: "env \<Rightarrow> nat \<Rightarrow> unit prog" where
  "start_server E t st =
     (let s = fst st; w = snd st in
      if popen_ok E (clock w)
      then (Ret (),
            (s\<lparr>android_process := Some (next_id w)\<rparr>,
             tick (w\<lparr>cmds := cmds w @ [server_cmd s],
                      live_procs := insert (next_id w) (live_procs w),
                      next_id := next_id w + 1\<rparr>)))
      else (Ret (), (s, tick (w\<lparr>alive_threads := alive_threads w - {t}\<rparr>))))"

subsection \<open>scrcpy\_stop\<close>

text \<open>One turn of the loop over \<open>sockets_to_close\<close>.\<close>

definition close_socket :: "env \<Rightarrow> nat option \<Rightarrow> unit prog" where
  "close_socket E sock =
     (case sock of
        None \<Rightarrow> ret ()
      | Some h \<Rightarrow>
          pbind (catch_if is_OSError (on_world (sock_shutdown E h)) (\<lambda>e. ret ())) (\<lambda>u.
                 catch_if is_OSError (on_world (sock_close E h)) (\<lambda>e. ret ())))"

text \<open>One turn of the loop over \<open>threads_to_join\<close>; the launcher thread is joined
  the same way.\<close>

definition join_thread :: "env \<Rightarrow> nat option \<Rightarrow> unit prog" where
  "join_thread E thread st =
     (case thread of
        None \<Rightarrow> (Ret (), st)
      | Some t \<Rightarrow>
          if is_alive t (snd st)
          then catch_if is_Exception (on_world (thread_join E t)) (\<lambda>e. ret ()) st
          else (Ret (), st))"

definition stop_process :: "env \<Rightarrow> unit prog" where
  "stop_process E st =
     (case android_process (fst st) of
        None \<Rightarrow> (Ret (), st)
      | Some p \<Rightarrow>
          catch_if is_Exception
            (pbind (on_world (proc_terminate E p)) (\<lambda>u.
               catch_if is_TimeoutExpired (on_world (proc_wait E p))
                 (\<lambda>e. on_world (proc_kill E p))))
            (\<lambda>e. ret ())
            st)"

definition scrcpy_stop :: "env \<Rightarrow> unit prog" where
  "scrcpy_stop E =
     pbind (modify (\<lambda>s. s\<lparr>stop := Some True\<rparr>)) (\<lambda>u st0.
      (let s = fst st0 in
       pbind (close_socket E (video_socket s)) (\<lambda>u.
       pbind (close_socket E (audio_socket s)) (\<lambda>u.
       pbind (close_socket E (control_socket s)) (\<lambda>u.
       pbind (join_thread E (video_thread s)) (\<lambda>u.
       pbind (join_thread E (audio_thread s)) (\<lambda>u.
       pbind (join_thread E (control_thread s)) (\<lambda>u.
       pbind (stop_process E) (\<lambda>u.
       pbind (join_thread E (android_thread s)) (\<lambda>u.
              catch_if is_Exception (cleanup_adb_forward E) (\<lambda>e. ret ())))))))))) st0)"

subsection \<open>scrcpy\_start\<close>

text \<open>Creating and connecting one channel: the field is assigned before
  \<open>connect\<close> is called.\<close>

definition open_channel :: "env \<Rightarrow> (nat option \<Rightarrow> scrcpy \<Rightarrow> scrcpy) \<Rightarrow> unit prog" where
  "open_channel E assign =
     pbind (on_world (socket_new E)) (\<lambda>h.
     pbind (modify (assign (Some h))) (\<lambda>u st.
            on_world (sock_connect E h (the (local_port (fst st)))) st))"

definition new_thread :: "(nat option \<Rightarrow> scrcpy \<Rightarrow> scrcpy) \<Rightarrow> nat prog" where
  "new_thread assign st =
     (case thread_new (snd st) of (t, w') \<Rightarrow> (Ret t, (assign (Some t) (fst st), w')))"

text \<open>The body of the \<open>try\<close> block: three connections in the order video, audio,
  control, then three worker threads created and started.\<close>

definition connect_and_start_workers :: "env \<Rightarrow> bool prog" where
  "connect_and_start_workers E =
     pbind (open_channel E (\<lambda>h s. s\<lparr>video_socket := h\<rparr>)) (\<lambda>u.
     pbind (open_channel E (\<lambda>h s. s\<lparr>audio_socket := h\<rparr>)) (\<lambda>u.
     pbind (open_channel E (\<lambda>h s. s\<lparr>control_socket := h\<rparr>)) (\<lambda>u.
     pbind (new_thread (\<lambda>t s. s\<lparr>video_thread := t\<rparr>)) (\<lambda>vt.
     pbind (new_thread (\<lambda>t s. s\<lparr>audio_thread := t\<rparr>)) (\<lambda>at.
     pbind (new_thread (\<lambda>t s. s\<lparr>control_thread := t\<rparr>)) (\<lambda>ct.
     pbind (on_world (thread_start E vt)) (\<lambda>u.
     pbind (on_world (thread_start E at)) (\<lambda>u.
     pbind (on_world (thread_start E ct)) (\<lambda>u.
            ret True)))))))))"

definition devices_cmd :: "scrcpy \<Rightarrow> argv" where
  "devices_cmd s = session_cmd s [''devices'']"

text \<open>
  \<open>scrcpy_start\<close> in two phases. \<open>start_prepare\<close> is the method up to and
  including \<open>time.sleep(1)\<close>: it returns \<open>False\<close> at either early
  \<open>return False\<close> and \<open>True\<close> when the method goes on to the \<open>try\<close> block;
  an exception raised here is not caught. \<open>connect_phase\<close> is the
  \<open>try ... except Exception\<close> block.
\<close>

definition start_prepare :: "env \<Rightarrow> nat \<Rightarrow> string \<Rightarrow> bool prog" where
  "start_prepare E callback rate =
     pbind (modify (\<lambda>s. s\<lparr>video_bit_rate := Some rate, video_callback := Some callback,
                             stop := Some False\<rparr>)) (\<lambda>u st.
     pbind (on_world (subprocess_run E False (devices_cmd (fst st)))) (\<lambda>result.
       if \<not> str_in ''device'' (stdout result) then ret False
       else
         pbind (push_server_to_device E) (\<lambda>pushed.
           if \<not> pushed then ret False
           else
             pbind (setup_adb_forward E) (\<lambda>u.
             pbind (new_thread (\<lambda>t s. s\<lparr>android_thread := t\<rparr>)) (\<lambda>t.
             pbind (on_world (thread_start E t)) (\<lambda>u.
             pbind (start_server E t) (\<lambda>u.
                    ret True)))))) st)"

definition connect_phase :: "env \<Rightarrow> bool prog" where
  "connect_phase E =
     catch_if is_Exception (connect_and_start_workers E)
       (\<lambda>e. pbind (scrcpy_stop E) (\<lambda>u. ret False))"

definition scrcpy_start :: "env \<Rightarrow> nat \<Rightarrow> string \<Rightarrow> bool prog" where
  "scrcpy_start E callback rate =
     pbind (start_prepare E callback rate)
           (\<lambda>ready. if ready then connect_phase E else ret False)"

section \<open>app.py: the device manager\<close>











section \<open>Specification-side notions for the device bridge\<close>

subsection \<open>Device listings\<close>

text \<open>
  An entry is a pair of an id and a state; its line is \<open>id<TAB>state\<close>. It is well
  formed when neither part contains a tab or a newline and the line is not blank. A
  listing is a header line, the lines of the entries and then blank lines, joined by
  newlines. \<open>device_of\<close> is the record the specification promises for an entry.
\<close>

definition line_of :: "string \<times> string \<Rightarrow> string" where
  "line_of e = fst e @ [CHR 0x09] @ snd e"

definition well_formed_entry :: "string \<times> string \<Rightarrow> bool" where
  "well_formed_entry e =
     (CHR 0x09 \<notin> set (fst e) \<and> CHR 0x0A \<notin> set (fst e) \<and>
      CHR 0x09 \<notin> set (snd e) \<and> CHR 0x0A \<notin> set (snd e) \<and>
      (\<exists>c \<in> set (fst e @ snd e). \<not> py_isspace c))"

definition blank_line :: "string \<Rightarrow> bool" where
  "blank_line b = (CHR 0x0A \<notin> set b \<and> (\<forall>c \<in> set b. py_isspace c))"

definition device_of :: "string \<times> string \<Rightarrow> device" where
  "device_of e = \<lparr>d_id = fst e, d_state = snd e, d_is_tcp = (CHR '':'' \<in> set (fst e))\<rparr>"

fun join_lines :: "string list \<Rightarrow> string" where
  "join_lines [] = []"
| "join_lines [l] = l"
| "join_lines (l # m # ls) = l @ [CHR 0x0A] @ join_lines (m # ls)"

definition listing :: "string \<Rightarrow> (string \<times> string) list \<Rightarrow> string list \<Rightarrow> string" where
  "listing header es blanks = join_lines (header # map line_of es @ blanks)"

definition env_abc :: "argv \<Rightarrow> run_outcome" where
  "env_abc a = Ran \<lparr>returncode = 0,
     stdout = ''List of devices attached'' @ [CHR 0x0A] @ ''ABC123'' @ [CHR 0x09] @ ''device'' @ [CHR 0x0A],
     stderr = ''''\<rparr>"

subsection \<open>Matches of the address pattern\<close>

text \<open>
  What the pattern \<open>src (\d+\.\d+\.\d+\.\d+)\<close> says, without a matcher: a dotted quad
  is four non-empty digit runs separated by dots; the dump has a match at \<open>pre\<close> when
  it reads \<open>pre\<close>, then \<open>src \<close>, then a dotted quad, then \<open>post\<close>. The match a
  search returns is the leftmost one, taken as long as possible: no match starts earlier,
  and no digit follows. \<open>atoms_lang p m\<close>: the text \<open>m\<close> as a whole matches the atom
  list \<open>p\<close>.
\<close>

definition digits1 :: "string \<Rightarrow> bool" where
  "digits1 a = (a \<noteq> [] \<and> (\<forall>c \<in> set a. is_digit c))"

definition dotted_quad :: "string \<Rightarrow> bool" where
  "dotted_quad ip =
     (\<exists>a b c d. ip = a @ ''.'' @ b @ ''.'' @ c @ ''.'' @ d
        \<and> digits1 a \<and> digits1 b \<and> digits1 c \<and> digits1 d)"

definition src_match_at :: "string \<Rightarrow> string \<Rightarrow> string \<Rightarrow> string \<Rightarrow> bool" where
  "src_match_at dump pre ip post = (dump = pre @ ''src '' @ ip @ post \<and> dotted_quad ip)"

definition src_match_exists :: "string \<Rightarrow> bool" where
  "src_match_exists dump = (\<exists>pre ip post. src_match_at dump pre ip post)"

definition first_src_match :: "string \<Rightarrow> string \<Rightarrow> bool" where
  "first_src_match dump ip =
     (\<exists>pre post. src_match_at dump pre ip post
        \<and> (post = [] \<or> \<not> is_digit (hd post))
        \<and> (\<forall>pre' ip' post'. src_match_at dump pre' ip' post' \<longrightarrow> length pre \<le> length pre'))"

fun atoms_lang :: "atom list \<Rightarrow> string \<Rightarrow> bool" where
  "atoms_lang [] m = (m = [])"
| "atoms_lang (Lit c # p) m = (\<exists>m'. m = c # m' \<and> atoms_lang p m')"
| "atoms_lang (Digits # p) m = (\<exists>ds m'. m = ds @ m' \<and> digits1 ds \<and> atoms_lang p m')"

definition route_dump :: string where
  "route_dump = ''192.168.1.0/24 dev wlan0 proto kernel scope link src 192.168.1.42 ''"

definition env_route :: "argv \<Rightarrow> run_outcome" where
  "env_route a = Ran \<lparr>returncode = 0, stdout = route_dump, stderr = ''''\<rparr>"

subsection \<open>Connecting\<close>





section \<open>Specification-side notions for the session\<close>

text \<open>
  \<open>shrinks w w'\<close>: no socket, thread or process exists in \<open>w'\<close> that did not in
  \<open>w\<close>. \<open>sockets_of\<close>: the sockets a session holds in its three fields.
  \<open>signals_delivered\<close>: no \<open>terminate\<close>, \<open>kill\<close> or \<open>wait\<close> call raises
  an error other than the timeout. \<open>joins_complete\<close>: every \<open>join\<close> returns with
  its thread finished.
\<close>

definition shrinks :: "world \<Rightarrow> world \<Rightarrow> bool" where
  "shrinks w w' =
     (open_socks w' \<subseteq> open_socks w \<and> alive_threads w' \<subseteq> alive_threads w
      \<and> live_procs w' \<subseteq> live_procs w)"

definition sockets_of :: "scrcpy \<Rightarrow> nat set" where
  "sockets_of s = set_option (video_socket s) \<union> set_option (audio_socket s)
                  \<union> set_option (control_socket s)"

definition signals_delivered :: "env \<Rightarrow> bool" where
  "signals_delivered E =
     (\<forall>t. terminate_ok E t \<and> kill_ok E t \<and> wait_out E t \<noteq> WaitRaises)"

definition after_cleanup :: "scrcpy \<Rightarrow> scrcpy" where
  "after_cleanup s = (if port_truthy (local_port s) then s\<lparr>local_port := None\<rparr> else s)"

definition joins_complete :: "env \<Rightarrow> bool" where
  "joins_complete E = (\<forall>t. join_out E t = Joined)"

definition threads_of :: "scrcpy \<Rightarrow> nat set" where
  "threads_of s = set_option (video_thread s) \<union> set_option (audio_thread s)
                  \<union> set_option (control_thread s) \<union> set_option (android_thread s)"

text \<open>
  \<open>port_held_ok\<close>: the session holds no port or a non-zero one. \<open>keeps P m\<close>: the
  statement \<open>m\<close>, started in a session state with \<open>P\<close>, ends in one with \<open>P\<close>,
  whether it returns or raises.
\<close>

definition port_held_ok :: "scrcpy \<Rightarrow> bool" where
  "port_held_ok s = (local_port s \<noteq> Some 0)"

definition keeps :: "(scrcpy \<Rightarrow> bool) \<Rightarrow> 'a prog \<Rightarrow> bool" where
  "keeps P m = (\<forall>s w r s' w'. P s \<longrightarrow> m (s, w) = (r, (s', w')) \<longrightarrow> P s')"

text \<open>
  Concrete runs. Device \<open>ABC123\<close>, a fresh session and an empty world; \<open>env_ok\<close>
  answers every call with success and lists the device.
\<close>

definition world0 :: world where
  "world0 = \<lparr>clock = 0, cmds = [], open_socks = {}, alive_threads = {}, live_procs = {},
              next_id = 0\<rparr>"

definition session0 :: scrcpy where
  "session0 = (Scrcpy_init ''adb'')\<lparr>device_id := Some ''ABC123''\<rparr>"

definition listing_abc :: string where
  "listing_abc =
     ''List of devices attached'' @ [CHR 0x0A] @ ''ABC123'' @ [CHR 0x09] @ ''device'' @ [CHR 0x0A]"

definition listing_empty :: string where
  "listing_empty = ''List of devices attached'' @ [CHR 0x0A, CHR 0x0A]"

definition run_ok :: "nat \<Rightarrow> argv \<Rightarrow> run_outcome" where
  "run_ok t a = Ran \<lparr>returncode = 0, stdout = listing_abc, stderr = ''''\<rparr>"

definition always :: "'a \<Rightarrow> nat \<Rightarrow> 'a" where
  "always x t = x"

definition env_ok :: env where
  "env_ok =
     \<lparr>run_out = run_ok, bind_out = (\<lambda>p. Bound),
      socket_ok = always True, connect_ok = always True, shutdown_ok = always True,
      close_ok = always True, start_ok = always True, popen_ok = always True,
      join_out = always Joined, terminate_ok = always True, wait_out = always Exited,
      kill_ok = always True\<rparr>"

text \<open>The device is not in the listing, and the push fails.\<close>

definition run_absent :: "nat \<Rightarrow> argv \<Rightarrow> run_outcome" where
  "run_absent t a =
     (if a = push_cmd session0
      then Ran \<lparr>returncode = 1, stdout = '''', stderr = ''adb: device ABC123 not found''\<rparr>
      else Ran \<lparr>returncode = 0, stdout = listing_empty, stderr = ''''\<rparr>)"

definition env_absent :: env where
  "env_absent = env_ok\<lparr>run_out := run_absent\<rparr>"

text \<open>The listing and the push succeed; every other command exits with status 1.\<close>

definition run_forward_fails :: "nat \<Rightarrow> argv \<Rightarrow> run_outcome" where
  "run_forward_fails t a =
     (if a = devices_cmd session0 \<or> a = push_cmd session0
      then Ran \<lparr>returncode = 0, stdout = listing_abc, stderr = ''''\<rparr>
      else Ran \<lparr>returncode = 1, stdout = '''', stderr = ''error: cannot bind''\<rparr>)"

definition env_forward_fails :: env where
  "env_forward_fails = env_ok\<lparr>run_out := run_forward_fails\<rparr>"

text \<open>No worker finishes within the join timeout.\<close>

definition env_stuck :: env where
  "env_stuck = env_ok\<lparr>join_out := always StillAlive\<rparr>"

text \<open>The connections are refused (so is the shutdown of a socket that never
  connected); in \<open>env_refused_term\<close> the \<open>terminate\<close> call raises as well.\<close>

definition env_refused :: env where
  "env_refused = env_ok\<lparr>connect_ok := always False, shutdown_ok := always False\<rparr>"

definition env_refused_term :: env where
  "env_refused_term = env_refused\<lparr>terminate_ok := always False\<rparr>"

text \<open>The adb program cannot be run at all.\<close>

definition run_raises :: "nat \<Rightarrow> argv \<Rightarrow> run_outcome" where
  "run_raises t a = RunRaised ''No such file or directory''"

definition env_no_adb :: env where
  "env_no_adb = env_ok\<lparr>run_out := run_raises\<rparr>"

definition session_forwarded :: scrcpy where
  "session_forwarded = session0\<lparr>local_port := Some 6666\<rparr>"

text \<open>The states of the runs below: after a successful start, after two stops, after
  the preparation phase, and after a start that failed while connecting.\<close>

definition running_session :: scrcpy where
  "running_session =
     session0\<lparr>video_socket := Some 2, audio_socket := Some 3, control_socket := Some 4,
              android_thread := Some 0, video_thread := Some 5, audio_thread := Some 6,
              control_thread := Some 7, android_process := Some 1, local_port := Some 6666,
              stop := Some False, video_bit_rate := Some ''1024000'', video_callback := Some 0\<rparr>"

definition running_world :: world where
  "running_world =
     \<lparr>clock = 14,
      cmds = [devices_cmd session0, push_cmd session0, forward_cmd session_forwarded,
              server_cmd running_session],
      open_socks = {4, 3, 2}, alive_threads = {7, 6, 5, 0}, live_procs = {1}, next_id = 8\<rparr>"

definition stopped_session :: scrcpy where
  "stopped_session = running_session\<lparr>stop := Some True, local_port := None\<rparr>"

definition stopped_world :: world where
  "stopped_world =
     running_world\<lparr>clock := 39,
                    cmds := cmds running_world @ [forward_remove_cmd running_session],
                    open_socks := {}, live_procs := {}\<rparr>"

definition refused_session :: scrcpy where
  "refused_session =
     session0\<lparr>video_socket := Some 2, android_thread := Some 0, android_process := Some 1,
              stop := Some True, video_bit_rate := Some ''1024000'', video_callback := Some 0\<rparr>"

definition refused_world :: world where
  "refused_world =
     \<lparr>clock = 12,
      cmds = [devices_cmd session0, push_cmd session0, forward_cmd session_forwarded,
              server_cmd running_session, forward_remove_cmd session_forwarded],
      open_socks = {}, alive_threads = {}, live_procs = {}, next_id = 3\<rparr>"

definition prepared_session :: scrcpy where
  "prepared_session =
     session0\<lparr>android_thread := Some 0, android_process := Some 1, local_port := Some 6666,
              stop := Some False, video_bit_rate := Some ''1024000'', video_callback := Some 0\<rparr>"

definition prepared_world :: world where
  "prepared_world =
     \<lparr>clock = 5,
      cmds = [devices_cmd session0, push_cmd session0, forward_cmd session_forwarded,
              server_cmd running_session],
      open_socks = {}, alive_threads = {0}, live_procs = {1}, next_id = 2\<rparr>"

section \<open>Specification-side notions for the device manager\<close>



section \<open>Properties of the device bridge\<close>


lemma str_in_single: "str_in [c] s \<longleftrightarrow> c \<in> set s"
  by (induction s) auto

lemma split_on_not_Nil: "split_on sep s \<noteq> []"
  by (induction s) (auto split: list.splits)

lemma split_on_no_sep: "sep \<notin> set a \<Longrightarrow> split_on sep a = [a]"
  by (induction a) auto

lemma split_on_append: "sep \<notin> set a \<Longrightarrow> split_on sep (a @ sep # b) = a # split_on sep b"
  by (induction a) (auto split: list.splits)

lemma py_strip_empty_iff: "py_strip s = [] \<longleftrightarrow> (\<forall>c \<in> set s. py_isspace c)"
proof
  assume "py_strip s = []"
  then have "dropWhile py_isspace (rev (dropWhile py_isspace s)) = []"
    by (simp add: py_strip_def)
  then have a: "\<forall>c \<in> set (dropWhile py_isspace s). py_isspace c"
    by (simp add: dropWhile_eq_Nil_conv)
  show "\<forall>c \<in> set s. py_isspace c"
  proof (cases "dropWhile py_isspace s")
    case Nil
    then show ?thesis by (simp add: dropWhile_eq_Nil_conv)
  next
    case (Cons x xs)
    then have "\<not> py_isspace x" by (metis hd_dropWhile list.sel(1) list.distinct(1))
    moreover have "py_isspace x" using a Cons by simp
    ultimately show ?thesis by simp
  qed
next
  assume a: "\<forall>c \<in> set s. py_isspace c"
  then show "py_strip s = []" by (auto simp: py_strip_def dest: set_dropWhileD)
qed

lemma split_join_lines:
  "ls \<noteq> [] \<Longrightarrow> \<forall>l \<in> set ls. CHR 0x0A \<notin> set l \<Longrightarrow> split_on (CHR 0x0A) (join_lines ls) = ls"
  by (induction ls rule: join_lines.induct) (simp_all add: split_on_no_sep split_on_append)

lemma device_lines_blank:
  "\<forall>b \<in> set bs. blank_line b \<Longrightarrow> device_lines bs = Ret []"
  by (induction bs) (simp_all add: blank_line_def py_strip_empty_iff)

lemma device_lines_entry:
  assumes "well_formed_entry e"
  shows "device_lines (line_of e # rest) =
     (case device_lines rest of Raise x \<Rightarrow> Raise x | Ret ds \<Rightarrow> Ret (device_of e # ds))"
proof -
  have parts: "split_on (CHR 0x09) (line_of e) = [fst e, snd e]"
    using assms by (simp add: line_of_def well_formed_entry_def split_on_append split_on_no_sep)
  have nonblank: "py_strip (line_of e) \<noteq> []"
    using assms by (auto simp: line_of_def well_formed_entry_def py_strip_empty_iff)
  show ?thesis
    by (cases "device_lines rest")
       (simp_all add: parts nonblank py_index_def device_of_def str_in_single)
qed

lemma device_lines_entries:
  "\<forall>e \<in> set es. well_formed_entry e \<Longrightarrow> \<forall>b \<in> set bs. blank_line b \<Longrightarrow>
   device_lines (map line_of es @ bs) = Ret (map device_of es)"
  by (induction es) (simp_all add: device_lines_blank device_lines_entry del: device_lines.simps)

lemma device_lines_total: "\<exists>ds. device_lines ls = Ret ds"
  by (induction ls) (auto simp: Let_def py_index_def)

lemma get_devices_total: "\<exists>ds. get_devices env path = Ret ds"
  by (simp add: get_devices_def device_lines_total split: prod.splits)

text \<open>
  Claim C8. A listing is a header line followed by \<open>N\<close> well-formed lines
  \<open>id<TAB>state\<close> (no tab or newline inside the id or the state, and the line not
  blank) and then blank lines. On such a listing \<open>get_devices\<close> returns exactly the
  \<open>N\<close> entries, in order, each with the line's id and state and \<open>is_tcp\<close> equal to
  whether the id contains a colon. It never raises, and when the tool fails (a non-zero
  exit status or an exception of the call) it returns the empty list.
\<close>

theorem get_devices_listing:
  "(CHR 0x0A \<notin> set header \<and> (\<forall>e \<in> set es. well_formed_entry e)
      \<and> (\<forall>b \<in> set blanks. blank_line b)
      \<and> env [path, ''devices''] = Ran \<lparr>returncode = 0, stdout = listing header es blanks, stderr = err\<rparr>
    \<longrightarrow> get_devices env path = Ret (map device_of es))
   \<and> (\<exists>ds. get_devices env path = Ret ds)
   \<and> ((\<forall>result. env [path, ''devices''] = Ran result \<longrightarrow> returncode result \<noteq> 0)
    \<longrightarrow> get_devices env path = Ret [])"
proof (intro conjI impI)
  assume h: "CHR 0x0A \<notin> set header \<and> (\<forall>e \<in> set es. well_formed_entry e)
      \<and> (\<forall>b \<in> set blanks. blank_line b)
      \<and> env [path, ''devices''] = Ran \<lparr>returncode = 0, stdout = listing header es blanks, stderr = err\<rparr>"
  have nl: "\<forall>l \<in> set (header # map line_of es @ blanks). CHR 0x0A \<notin> set l"
    using h by (auto simp: well_formed_entry_def blank_line_def line_of_def)
  have "split_on (CHR 0x0A) (listing header es blanks) = header # map line_of es @ blanks"
    unfolding listing_def by (rule split_join_lines) (use nl in simp_all)
  then show "get_devices env path = Ret (map device_of es)"
    using h by (simp add: get_devices_def run_adb_command_def adb_argv_def device_lines_entries)
next
  show "\<exists>ds. get_devices env path = Ret ds" by (rule get_devices_total)
next
  assume "\<forall>result. env [path, ''devices''] = Ran result \<longrightarrow> returncode result \<noteq> 0"
  then show "get_devices env path = Ret []"
    by (auto simp: get_devices_def run_adb_command_def adb_argv_def split: run_outcome.splits)
qed

text \<open>
  The scenario of the specification: one device \<open>ABC123\<close> in state \<open>device\<close>; and
  a tool that cannot be run.
\<close>

theorem get_devices_listing_witness:
  "get_devices env_abc ''adb'' = Ret [\<lparr>d_id = ''ABC123'', d_state = ''device'', d_is_tcp = False\<rparr>]
   \<and> get_devices (\<lambda>a. RunRaised ''no adb'') ''adb'' = Ret []"
proof -
  have l: "listing ''List of devices attached'' [(''ABC123'', ''device'')] [[]]
     = ''List of devices attached'' @ [CHR 0x0A] @ ''ABC123'' @ [CHR 0x09] @ ''device'' @ [CHR 0x0A]"
    by (simp add: listing_def line_of_def)
  have wf: "well_formed_entry (''ABC123'', ''device'')"
    by (simp add: well_formed_entry_def py_isspace_def)
  have a: "get_devices env_abc ''adb'' = Ret (map device_of [(''ABC123'', ''device'')])"
    using get_devices_listing [of "''List of devices attached''" "[(''ABC123'', ''device'')]" "[[]]"
        env_abc "''adb''" "''''"] wf l
    by (simp add: env_abc_def blank_line_def)
  have b: "get_devices (\<lambda>a. RunRaised ''no adb'') ''adb'' = Ret []"
    using get_devices_listing [of "[]" "[]" "[]" "\<lambda>a. RunRaised ''no adb''" "''adb''" "[]"]
    by simp
  from a b show ?thesis by (simp add: device_of_def)
qed

lemma take_digits:
  assumes "1 \<le> k" "k \<le> length (takeWhile is_digit s)"
  shows "digits1 (take k s)"
proof -
  have "take k s = take k (takeWhile is_digit s @ dropWhile is_digit s)" by simp
  also have "\<dots> = take k (takeWhile is_digit s)" using assms(2) by (simp del: takeWhile_dropWhile_id)
  finally have eq: "take k s = take k (takeWhile is_digit s)" .
  have "\<forall>c \<in> set (take k (takeWhile is_digit s)). is_digit c"
    by (meson in_set_takeD set_takeWhileD)
  moreover have "take k s \<noteq> []" using assms eq by auto
  ultimately show ?thesis by (simp add: digits1_def eq)
qed

lemma match_atoms_sound:
  "r \<in> set (match_atoms p s) \<Longrightarrow> \<exists>m. s = m @ r \<and> atoms_lang p m"
proof (induction p s rule: match_atoms.induct)
  case (1 s)
  then show ?case by simp
next
  case (2 c p s)
  then show ?case by (cases s) (auto split: if_splits)
next
  case (3 p s)
  from "3.prems" obtain k where k: "1 \<le> k" "k \<le> length (takeWhile is_digit s)"
    and r: "r \<in> set (match_atoms p (drop k s))"
    by auto
  have "k \<in> set (rev [1..<Suc (length (takeWhile is_digit s))])" using k by auto
  from "3.IH" [OF this r] obtain m' where m': "drop k s = m' @ r" "atoms_lang p m'" by auto
  have "s = take k s @ m' @ r" using m'(1) by (metis append_take_drop_id)
  moreover have "atoms_lang (Digits # p) (take k s @ m')"
    using take_digits [OF k] m'(2) by auto
  ultimately show ?case by (metis append.assoc)
qed

lemma match_atoms_complete:
  "atoms_lang p m \<Longrightarrow> r \<in> set (match_atoms p (m @ r))"
proof (induction p arbitrary: m)
  case Nil
  then show ?case by simp
next
  case (Cons a p)
  show ?case
  proof (cases a)
    case (Lit c)
    with Cons show ?thesis by auto
  next
    case Digits
    with Cons.prems obtain ds m' where m: "m = ds @ m'" "digits1 ds" "atoms_lang p m'" by auto
    let ?k = "length ds"
    have "takeWhile is_digit (ds @ m' @ r) = ds @ takeWhile is_digit (m' @ r)"
      using m(2) by (simp add: digits1_def takeWhile_append2)
    then have kn: "?k \<le> length (takeWhile is_digit (m @ r))" by (simp add: m(1))
    have k1: "1 \<le> ?k" using m(2) by (cases ds) (auto simp: digits1_def)
    have mem: "r \<in> set (match_atoms p (drop ?k (m @ r)))"
      using Cons.IH [OF m(3)] by (simp add: m(1))
    have kin: "?k \<in> set (rev [1..<Suc (length (takeWhile is_digit (m @ r)))])"
      using kn k1 by auto
    have "r \<in> set (concat (map (\<lambda>k. match_atoms p (drop k (m @ r)))
                 (rev [1..<Suc (length (takeWhile is_digit (m @ r)))])))"
      unfolding set_concat set_map using mem kin by blast
    then show ?thesis by (simp only: Digits match_atoms.simps)
  qed
qed

lemma concat_hd:
  "concat xss = r # rs \<Longrightarrow> \<exists>xs \<in> set xss. \<exists>rs'. xs = r # rs'"
  by (induction xss) (auto simp: append_eq_Cons_conv)

lemma match_atoms_greedy:
  "match_atoms (p @ [Digits]) s = r # rs \<Longrightarrow> r = [] \<or> \<not> is_digit (hd r)"
proof (induction p arbitrary: s r rs)
  case Nil
  let ?n = "length (takeWhile is_digit s)"
  from Nil have e: "map (\<lambda>k. drop k s) (rev [1..<Suc ?n]) = r # rs"
    by (simp add: concat_map_singleton)
  then have "?n \<noteq> 0" by auto
  then have "rev [1..<Suc ?n] = ?n # rev [1..<?n]" by (cases ?n) auto
  with e have "r = drop ?n s" by simp
  then have "r = dropWhile is_digit s" by (simp add: dropWhile_eq_drop)
  then show ?case by (metis hd_dropWhile)
next
  case (Cons a p)
  show ?case
  proof (cases a)
    case (Lit c)
    with Cons.prems show ?thesis
      by (cases s) (auto split: if_splits dest: Cons.IH)
  next
    case Digits
    with Cons.prems obtain xs rs' where
      "xs \<in> set (map (\<lambda>k. match_atoms (p @ [Digits]) (drop k s))
                    (rev [1..<Suc (length (takeWhile is_digit s))]))" "xs = r # rs'"
      by (auto dest!: concat_hd)
    then obtain k where "match_atoms (p @ [Digits]) (drop k s) = r # rs'" by auto
    then show ?thesis by (rule Cons.IH)
  qed
qed

lemma re_search_Some:
  "re_search p s = Some m \<Longrightarrow>
   \<exists>pre post rs. s = pre @ m @ post \<and> match_atoms p (m @ post) = post # rs
     \<and> (\<forall>pre' m' post'. s = pre' @ m' @ post' \<and> atoms_lang p m' \<longrightarrow> length pre \<le> length pre')"
proof (induction p s rule: re_search.induct)
  case (1 p)
  then obtain r rs where rr: "match_atoms p [] = r # rs" and m: "m = []"
    by (auto split: list.splits)
  then have "r \<in> set (match_atoms p [])" by simp
  then have "r = []" using match_atoms_sound by fastforce
  then have "[] = [] @ m @ []" "match_atoms p (m @ []) = [] # rs" using rr m by simp_all
  then show ?case by (metis le0 list.size(3))
next
  case (2 p c cs)
  show ?case
  proof (cases "match_atoms p (c # cs)")
    case Nil
    with "2.prems" have "re_search p cs = Some m" by simp
    from "2.IH" [OF Nil this] obtain pre post rs where
      a: "cs = pre @ m @ post" "match_atoms p (m @ post) = post # rs"
      and b: "\<forall>pre' m' post'. cs = pre' @ m' @ post' \<and> atoms_lang p m' \<longrightarrow> length pre \<le> length pre'"
      by blast
    have "\<forall>pre' m' post'. c # cs = pre' @ m' @ post' \<and> atoms_lang p m' \<longrightarrow> length (c # pre) \<le> length pre'"
    proof (intro allI impI)
      fix pre' m' post' assume h: "c # cs = pre' @ m' @ post' \<and> atoms_lang p m'"
      show "length (c # pre) \<le> length pre'"
      proof (cases pre')
        case Nil
        with h have "post' \<in> set (match_atoms p (c # cs))"
          using match_atoms_complete [of p m' post'] by simp
        with \<open>match_atoms p (c # cs) = []\<close> show ?thesis by simp
      next
        case (Cons x pre'')
        with h have "cs = pre'' @ m' @ post'" by simp
        with b h have "length pre \<le> length pre''" by blast
        then show ?thesis using Cons by simp
      qed
    qed
    moreover have "c # cs = (c # pre) @ m @ post" using a(1) by simp
    ultimately show ?thesis using a(2) by blast
  next
    case (Cons r rs)
    with "2.prems" have m: "m = take (length (c # cs) - length r) (c # cs)" by simp
    have "r \<in> set (match_atoms p (c # cs))" using Cons by simp
    then obtain m0 where m0: "c # cs = m0 @ r" "atoms_lang p m0"
      using match_atoms_sound by blast
    then have "m = m0" using m by simp
    then have "c # cs = [] @ m @ r" "match_atoms p (m @ r) = r # rs"
      using m0 Cons by simp_all
    then show ?thesis by (metis le0 list.size(3))
  qed
qed

lemma re_search_None:
  "re_search p s = None \<Longrightarrow> s = pre @ m @ post \<Longrightarrow> \<not> atoms_lang p m"
proof (induction p s arbitrary: pre rule: re_search.induct)
  case (1 p)
  then have "match_atoms p [] = []" by (auto split: list.splits)
  moreover from 1 have "pre = []" "m = []" "post = []" by simp_all
  ultimately show ?case using match_atoms_complete [of p "[]" "[]"] by auto
next
  case (2 p c cs)
  from "2.prems"(1) have nil: "match_atoms p (c # cs) = []" and rec: "re_search p cs = None"
    by (auto split: list.splits)
  show ?case
  proof (cases pre)
    case Nil
    show ?thesis
    proof
      assume "atoms_lang p m"
      then have "post \<in> set (match_atoms p (m @ post))" by (rule match_atoms_complete)
      then show False using nil "2.prems"(2) Nil by simp
    qed
  next
    case (Cons x pre')
    then have "cs = pre' @ m @ post" using "2.prems"(2) by simp
    from "2.IH" [OF nil rec this] show ?thesis .
  qed
qed

lemma ip_atoms_lang: "atoms_lang ip_atoms ip \<longleftrightarrow> dotted_quad ip"
proof
  assume "atoms_lang ip_atoms ip"
  then obtain a b c d where "ip = a @ CHR ''.'' # b @ CHR ''.'' # c @ CHR ''.'' # d"
    "digits1 a" "digits1 b" "digits1 c" "digits1 d"
    by (auto simp: ip_atoms_def)
  then show "dotted_quad ip" unfolding dotted_quad_def by auto
next
  assume "dotted_quad ip"
  then obtain a b c d where ip: "ip = a @ CHR ''.'' # b @ CHR ''.'' # c @ CHR ''.'' # d"
    and d: "digits1 a" "digits1 b" "digits1 c" "digits1 d"
    unfolding dotted_quad_def by auto
  have 1: "atoms_lang [Digits] d" using d by simp
  have 2: "atoms_lang [Digits, Lit CHR ''.'', Digits] (c @ CHR ''.'' # d)"
    using d 1 by (simp del: atoms_lang.simps(3) add: atoms_lang.simps(3) [of _ "c @ _"]) blast
  have 3: "atoms_lang [Digits, Lit CHR ''.'', Digits, Lit CHR ''.'', Digits] (b @ CHR ''.'' # c @ CHR ''.'' # d)"
    using d 2 by (subst atoms_lang.simps(3)) (simp del: atoms_lang.simps(3), blast)
  show "atoms_lang ip_atoms ip"
    unfolding ip_atoms_def ip using d 3
    by (subst atoms_lang.simps(3)) (simp del: atoms_lang.simps(3), blast)
qed

lemma src_pattern_lang:
  "atoms_lang src_pattern m \<longleftrightarrow> (\<exists>ip. m = ''src '' @ ip \<and> dotted_quad ip)"
proof -
  have "atoms_lang src_pattern m \<longleftrightarrow> (\<exists>ip. m = ''src '' @ ip \<and> atoms_lang ip_atoms ip)"
    by (auto simp: src_pattern_def src_prefix_def simp del: atoms_lang.simps(3))
  then show ?thesis by (simp add: ip_atoms_lang)
qed

lemma get_device_ip_success:
  "env [path, ''shell'', ''ip'', ''route''] = Ran \<lparr>returncode = 0, stdout = dump, stderr = err\<rparr> \<Longrightarrow>
   get_device_ip env path =
     (case re_search src_pattern dump of None \<Rightarrow> None | Some m \<Rightarrow> Some (drop (length src_prefix) m))"
  by (simp add: get_device_ip_def run_adb_command_def adb_argv_def)

lemma re_search_src_Some:
  assumes "re_search src_pattern dump = Some m"
  shows "first_src_match dump (drop (length src_prefix) m)"
proof -
  from re_search_Some [OF assms] obtain pre post rs where
    d: "dump = pre @ m @ post" and ma: "match_atoms src_pattern (m @ post) = post # rs"
    and left: "\<forall>pre' m' post'. dump = pre' @ m' @ post' \<and> atoms_lang src_pattern m' \<longrightarrow> length pre \<le> length pre'"
    by blast
  have "post \<in> set (match_atoms src_pattern (m @ post))" using ma by simp
  then obtain m0 where "m @ post = m0 @ post" "atoms_lang src_pattern m0"
    using match_atoms_sound by blast
  then have "atoms_lang src_pattern m" by simp
  then obtain ip where ip: "m = ''src '' @ ip" "dotted_quad ip"
    using src_pattern_lang by blast
  have dr: "drop (length src_prefix) m = ip" by (simp add: ip(1) src_prefix_def)
  have "src_pattern = (map Lit src_prefix @ [Digits, Lit CHR ''.'', Digits, Lit CHR ''.'', Digits, Lit CHR ''.'']) @ [Digits]"
    by (simp add: src_pattern_def ip_atoms_def)
  with ma have greedy: "post = [] \<or> \<not> is_digit (hd post)"
    using match_atoms_greedy by metis
  have at: "src_match_at dump pre ip post"
    using d ip by (simp add: src_match_at_def)
  have "\<forall>pre' ip' post'. src_match_at dump pre' ip' post' \<longrightarrow> length pre \<le> length pre'"
  proof (intro allI impI)
    fix pre' ip' post' assume "src_match_at dump pre' ip' post'"
    then have "dump = pre' @ (''src '' @ ip') @ post'" "atoms_lang src_pattern (''src '' @ ip')"
      using src_pattern_lang by (auto simp: src_match_at_def)
    with left show "length pre \<le> length pre'" by blast
  qed
  with at greedy show ?thesis unfolding first_src_match_def dr by blast
qed

lemma re_search_src_None:
  assumes "re_search src_pattern dump = None"
  shows "\<not> src_match_exists dump"
proof
  assume "src_match_exists dump"
  then obtain pre ip post where "dump = pre @ (''src '' @ ip) @ post" "dotted_quad ip"
    by (auto simp: src_match_exists_def src_match_at_def)
  moreover then have "atoms_lang src_pattern (''src '' @ ip)"
    using src_pattern_lang by blast
  ultimately show False using re_search_None [OF assms] by blast
qed

text \<open>
  Claim C9. On a routing-table dump (the output of a successful \<open>ip route\<close> call),
  \<open>get_device_ip\<close> returns \<open>None\<close> exactly when no part of the dump matches
  \<open>src (\d+\.\d+\.\d+\.\d+)\<close>, and otherwise returns the address of the match: four
  non-empty digit runs separated by dots, right after the leftmost \<open>src \<close> that has
  such a continuation, and not followed by a further digit.
\<close>

theorem get_device_ip_pattern:
  "env [path, ''shell'', ''ip'', ''route''] = Ran \<lparr>returncode = 0, stdout = dump, stderr = err\<rparr> \<Longrightarrow>
   (get_device_ip env path = None \<longleftrightarrow> \<not> src_match_exists dump) \<and>
   (\<forall>ip. get_device_ip env path = Some ip \<longrightarrow> first_src_match dump ip)"
proof -
  assume e: "env [path, ''shell'', ''ip'', ''route''] = Ran \<lparr>returncode = 0, stdout = dump, stderr = err\<rparr>"
  show ?thesis
  proof (cases "re_search src_pattern dump")
    case None
    then show ?thesis
      using re_search_src_None [OF None] get_device_ip_success [of env path dump err, OF e] by simp
  next
    case (Some m)
    have f: "first_src_match dump (drop (length src_prefix) m)"
      by (rule re_search_src_Some [OF Some])
    then have "src_match_exists dump"
      unfolding first_src_match_def src_match_exists_def by blast
    with f show ?thesis
      using get_device_ip_success [of env path dump err, OF e] by (simp add: Some)
  qed
qed

text \<open>
  The scenario of the specification: a dump containing \<open>src 192.168.1.42\<close>.
\<close>

theorem get_device_ip_pattern_witness:
  "get_device_ip env_route ''adb'' = Some ''192.168.1.42'' \<and> first_src_match route_dump ''192.168.1.42''"
proof -
  have ev: "get_device_ip env_route ''adb'' = Some ''192.168.1.42''"
    by (simp add: get_device_ip_def run_adb_command_def adb_argv_def env_route_def route_dump_def
        src_pattern_def src_prefix_def ip_atoms_def is_digit_def)
  have "env_route [''adb'', ''shell'', ''ip'', ''route''] = Ran \<lparr>returncode = 0, stdout = route_dump, stderr = ''''\<rparr>"
    by (simp add: env_route_def)
  from get_device_ip_pattern [of env_route "''adb''" route_dump "[]", OF this] ev
  show ?thesis by simp
qed








section \<open>Properties of the port probe\<close>

lemma probe_ports_skip:
  "\<forall>i \<in> set xs. bind (s + int i) = BindOSError \<Longrightarrow>
   probe_ports bind s (xs @ ys) = probe_ports bind s ys"
  by (induction xs) simp_all

lemma probe_ports_all_occupied:
  "\<forall>i \<in> set xs. bind (s + int i) = BindOSError \<Longrightarrow>
   probe_ports bind s xs = Raise PortExhausted"
  using probe_ports_skip [of xs bind s "[]"] by simp

lemma probe_ports_first_free:
  assumes "B < n"
    and "\<forall>i < B. bind (s + int i) = BindOSError"
    and "bind (s + int B) = Bound"
  shows "probe_ports bind s [0..<n] = Ret (s + int B)"
proof -
  have split: "[0..<n] = [0..<B] @ B # [Suc B..<n]"
    using assms(1) by (metis less_imp_le_nat upt_add_eq_append upt_conv_Cons le0 le_add_diff_inverse plus_nat.add_0)
  have "probe_ports bind s ([0..<B] @ B # [Suc B..<n]) = probe_ports bind s (B # [Suc B..<n])"
    by (rule probe_ports_skip) (simp add: assms(2))
  also have "\<dots> = Ret (s + int B)"
    by (simp add: assms(3))
  finally show ?thesis
    by (simp add: split)
qed

lemma probe_ports_lower_bound:
  "probe_ports bind s xs = Ret p \<Longrightarrow> s \<le> p"
  by (induction xs) (auto simp: Let_def split: bind_outcome.splits)

lemma find_available_port_lower_bound:
  "find_available_port bind s n = Ret p \<Longrightarrow> s \<le> p"
  unfolding find_available_port_def by (rule probe_ports_lower_bound)

text \<open>
  Claim C5. When the \<open>B\<close> consecutive ports from the base are occupied (their bind
  raises \<open>OSError\<close>) and port \<open>base + B\<close> binds, with \<open>B\<close> below the attempt
  ceiling, \<open>find_available_port\<close> returns exactly \<open>base + B\<close>; when no port of
  \<open>[base, base + max_attempts)\<close> binds, it raises the port-exhausted exception.
  Both hold for the default arguments (base 6666, ceiling 100) in particular.
\<close>

theorem find_available_port_probing:
  "(int B < max_attempts \<and> (\<forall>i < B. bind (start + int i) = BindOSError)
      \<and> bind (start + int B) = Bound
    \<longrightarrow> find_available_port bind start max_attempts = Ret (start + int B))
   \<and> ((\<forall>i < nat max_attempts. bind (start + int i) = BindOSError)
    \<longrightarrow> find_available_port bind start max_attempts = Raise PortExhausted)"
proof (intro conjI impI)
  assume h: "int B < max_attempts \<and> (\<forall>i < B. bind (start + int i) = BindOSError)
    \<and> bind (start + int B) = Bound"
  then have "B < nat max_attempts" by linarith
  with h show "find_available_port bind start max_attempts = Ret (start + int B)"
    unfolding find_available_port_def py_range_def
    by (intro probe_ports_first_free) simp_all
next
  assume "\<forall>i < nat max_attempts. bind (start + int i) = BindOSError"
  then show "find_available_port bind start max_attempts = Raise PortExhausted"
    unfolding find_available_port_def py_range_def
    by (intro probe_ports_all_occupied) simp
qed

text \<open>
  The scenario of the specification: ports 6666, 6667 and 6668 occupied, base 6666, gives
  6669; and with every port occupied the default call gives up after 100 attempts.
\<close>

theorem find_available_port_probing_witness:
  "find_available_port_default
     (\<lambda>p. if p \<in> {6666, 6667, 6668} then BindOSError else Bound) = Ret 6669
   \<and> find_available_port_default (\<lambda>p. BindOSError) = Raise PortExhausted"
proof -
  let ?bind = "\<lambda>p::int. if p \<in> {6666, 6667, 6668} then BindOSError else Bound"
  have occ: "\<forall>i < 3. ?bind (6666 + int i) = BindOSError"
  proof (intro allI impI)
    fix i :: nat assume "i < 3"
    then have "i = 0 \<or> i = 1 \<or> i = 2" by arith
    then show "?bind (6666 + int i) = BindOSError" by auto
  qed
  have free: "?bind (6666 + int 3) = Bound" by simp
  have a: "find_available_port ?bind 6666 100 = Ret (6666 + int 3)"
    using find_available_port_probing [of 3 100 ?bind 6666] occ free by simp
  have b: "find_available_port (\<lambda>p. BindOSError) 6666 100 = Raise PortExhausted"
    using find_available_port_probing [of 0 100 "\<lambda>p. BindOSError" 6666] by simp
  from a b show ?thesis
    by (simp add: find_available_port_default_def BASE_PORT_def)
qed

section \<open>Properties of the session\<close>

subsection \<open>Unfolding sets\<close>

lemmas prog_defs = pbind_def catch_if_def try_finally_def on_world_def modify_def ret_def
  is_Exception_def is_OSError_def is_TimeoutExpired_def

lemmas world_defs = subprocess_run_def socket_new_def sock_connect_def sock_shutdown_def
  sock_close_def thread_new_def thread_start_def is_alive_def thread_join_def
  proc_terminate_def proc_wait_def proc_kill_def tick_def Let_def

lemmas session_defs = start_prepare_def connect_phase_def scrcpy_start_def scrcpy_stop_def
  connect_and_start_workers_def open_channel_def new_thread_def close_socket_def join_thread_def
  stop_process_def cleanup_adb_forward_def push_server_to_device_def setup_adb_forward_def
  start_server_def devices_cmd_def push_cmd_def forward_cmd_def forward_remove_cmd_def
  server_cmd_def session_cmd_def adb_argv_def port_truthy_def find_available_port_default_def
  find_available_port_def py_range_def BASE_PORT_def SCRCPY_SERVER_PATH_def DEVICE_SERVER_PATH_def
  str_int_def str_nat.simps digit_chars_def insert_Diff_if numeral_2_eq_2 [symmetric]

lemmas concrete_defs = world0_def session0_def Scrcpy_init_def listing_abc_def listing_empty_def
  run_ok_def always_def env_ok_def run_absent_def env_absent_def run_forward_fails_def
  env_forward_fails_def env_stuck_def env_refused_def env_refused_term_def run_raises_def
  env_no_adb_def session_forwarded_def

lemma upt_100: "[0..<100] = 0 # [1..<100]"
  by (simp add: upt_conv_Cons)

subsection \<open>Sequencing\<close>

lemma pbind_Ret: "m st = (Ret x, st') \<Longrightarrow> pbind m f st = f x st'"
  by (simp add: pbind_def)

lemma pbind_RetE:
  assumes "pbind m f st = (Ret y, st')"
  obtains x st1 where "m st = (Ret x, st1)" "f x st1 = (Ret y, st')"
  using assms by (auto simp: pbind_def split: prod.splits res.splits)

lemma pbind_modify: "pbind (modify g) f st = f () (g (fst st), snd st)"
  by (simp add: pbind_def modify_def)

subsection \<open>The stop sequence, step by step\<close>

lemma shrinks_trans: "shrinks a b \<Longrightarrow> shrinks b c \<Longrightarrow> shrinks a c"
  by (auto simp: shrinks_def)

lemma close_socket_spec:
  "\<exists>w'. close_socket E sock (s, w) = (Ret (), (s, w')) \<and> shrinks w w' \<and> cmds w' = cmds w
        \<and> (\<forall>h. sock = Some h \<longrightarrow> h \<notin> open_socks w')"
  by (cases sock) (auto simp: close_socket_def prog_defs world_defs shrinks_def)

lemma join_thread_spec:
  "\<exists>w'. join_thread E thread (s, w) = (Ret (), (s, w')) \<and> shrinks w w' \<and> cmds w' = cmds w
        \<and> open_socks w' = open_socks w \<and> live_procs w' = live_procs w
        \<and> (joins_complete E \<longrightarrow> (\<forall>t. thread = Some t \<longrightarrow> t \<notin> alive_threads w'))"
  by (cases thread)
     (auto simp: join_thread_def prog_defs world_defs shrinks_def joins_complete_def
           split: join_outcome.splits intro: exI [where x = "clock w"])

lemma stop_process_spec:
  "\<exists>w'. stop_process E (s, w) = (Ret (), (s, w')) \<and> shrinks w w' \<and> cmds w' = cmds w
        \<and> open_socks w' = open_socks w
        \<and> (signals_delivered E \<longrightarrow> (\<forall>p. android_process s = Some p \<longrightarrow> p \<notin> live_procs w'))"
  by (cases "android_process s")
     (auto simp: stop_process_def prog_defs world_defs shrinks_def signals_delivered_def
           split: wait_outcome.splits)

lemma cleanup_adb_forward_spec:
  "\<exists>w'. cleanup_adb_forward E (s, w) = (Ret (), (after_cleanup s, w')) \<and> shrinks w w'
        \<and> open_socks w' = open_socks w \<and> live_procs w' = live_procs w
        \<and> alive_threads w' = alive_threads w
        \<and> (\<not> port_truthy (local_port s) \<longrightarrow> w' = w)
        \<and> (port_truthy (local_port s) \<longrightarrow> cmds w' = cmds w @ [forward_remove_cmd s])"
  by (auto simp: cleanup_adb_forward_def after_cleanup_def prog_defs world_defs shrinks_def
           split: run_outcome.splits)

lemma forward_remove_cmd_stop [simp]:
  "forward_remove_cmd (s\<lparr>stop := b\<rparr>) = forward_remove_cmd s"
  by (simp add: forward_remove_cmd_def session_cmd_def)

lemma after_cleanup_port:
  "local_port s \<noteq> Some 0 \<Longrightarrow> after_cleanup s = s\<lparr>local_port := None\<rparr>"
  by (cases "local_port s") (auto simp: after_cleanup_def port_truthy_def)

lemma port_truthy_iff:
  "local_port s \<noteq> Some 0 \<Longrightarrow> port_truthy (local_port s) \<longleftrightarrow> local_port s \<noteq> None"
  by (cases "local_port s") (auto simp: port_truthy_def)

lemma scrcpy_stop_spec:
  "\<exists>w'. scrcpy_stop E (s, w) = (Ret (), (after_cleanup (s\<lparr>stop := Some True\<rparr>), w'))
        \<and> shrinks w w'
        \<and> (\<forall>h \<in> sockets_of s. h \<notin> open_socks w')
        \<and> (signals_delivered E \<longrightarrow> (\<forall>p. android_process s = Some p \<longrightarrow> p \<notin> live_procs w'))
        \<and> (joins_complete E \<longrightarrow> (\<forall>t \<in> threads_of s. t \<notin> alive_threads w'))
        \<and> cmds w' = cmds w @ (if port_truthy (local_port s) then [forward_remove_cmd s] else [])"
proof -
  let ?s = "s\<lparr>stop := Some True\<rparr>"
  obtain w1 where 1: "close_socket E (video_socket s) (?s, w) = (Ret (), (?s, w1))"
    and s1: "shrinks w w1" and c1: "cmds w1 = cmds w"
    and v: "\<forall>h. video_socket s = Some h \<longrightarrow> h \<notin> open_socks w1"
    using close_socket_spec [of E "video_socket s" ?s w] by auto
  obtain w2 where 2: "close_socket E (audio_socket s) (?s, w1) = (Ret (), (?s, w2))"
    and s2: "shrinks w1 w2" and c2: "cmds w2 = cmds w1"
    and a: "\<forall>h. audio_socket s = Some h \<longrightarrow> h \<notin> open_socks w2"
    using close_socket_spec [of E "audio_socket s" ?s w1] by auto
  obtain w3 where 3: "close_socket E (control_socket s) (?s, w2) = (Ret (), (?s, w3))"
    and s3: "shrinks w2 w3" and c3: "cmds w3 = cmds w2"
    and c: "\<forall>h. control_socket s = Some h \<longrightarrow> h \<notin> open_socks w3"
    using close_socket_spec [of E "control_socket s" ?s w2] by auto
  obtain w4 where 4: "join_thread E (video_thread s) (?s, w3) = (Ret (), (?s, w4))"
    and s4: "shrinks w3 w4" and c4: "cmds w4 = cmds w3"
    and j4: "joins_complete E \<longrightarrow> (\<forall>t. video_thread s = Some t \<longrightarrow> t \<notin> alive_threads w4)"
    using join_thread_spec [of E "video_thread s" ?s w3] by auto
  obtain w5 where 5: "join_thread E (audio_thread s) (?s, w4) = (Ret (), (?s, w5))"
    and s5: "shrinks w4 w5" and c5: "cmds w5 = cmds w4"
    and j5: "joins_complete E \<longrightarrow> (\<forall>t. audio_thread s = Some t \<longrightarrow> t \<notin> alive_threads w5)"
    using join_thread_spec [of E "audio_thread s" ?s w4] by auto
  obtain w6 where 6: "join_thread E (control_thread s) (?s, w5) = (Ret (), (?s, w6))"
    and s6: "shrinks w5 w6" and c6: "cmds w6 = cmds w5"
    and j6: "joins_complete E \<longrightarrow> (\<forall>t. control_thread s = Some t \<longrightarrow> t \<notin> alive_threads w6)"
    using join_thread_spec [of E "control_thread s" ?s w5] by auto
  obtain w7 where 7: "stop_process E (?s, w6) = (Ret (), (?s, w7))"
    and s7: "shrinks w6 w7" and c7: "cmds w7 = cmds w6"
    and p: "signals_delivered E \<longrightarrow> (\<forall>p. android_process s = Some p \<longrightarrow> p \<notin> live_procs w7)"
    using stop_process_spec [of E ?s w6] by auto
  obtain w8 where 8: "join_thread E (android_thread s) (?s, w7) = (Ret (), (?s, w8))"
    and s8: "shrinks w7 w8" and c8: "cmds w8 = cmds w7"
    and j8: "joins_complete E \<longrightarrow> (\<forall>t. android_thread s = Some t \<longrightarrow> t \<notin> alive_threads w8)"
    using join_thread_spec [of E "android_thread s" ?s w7] by auto
  obtain w9 where 9: "cleanup_adb_forward E (?s, w8) = (Ret (), (after_cleanup ?s, w9))"
    and s9: "shrinks w8 w9"
    and n9: "\<not> port_truthy (local_port s) \<longrightarrow> w9 = w8"
    and c9: "port_truthy (local_port s) \<longrightarrow> cmds w9 = cmds w8 @ [forward_remove_cmd ?s]"
    using cleanup_adb_forward_spec [of E ?s w8] by auto
  have run: "scrcpy_stop E (s, w) = (Ret (), (after_cleanup ?s, w9))"
    unfolding scrcpy_stop_def
    by (simp add: pbind_def modify_def Let_def 1 2 3 4 5 6 7 8 9 catch_if_def)
  have s39: "shrinks w3 w9"
    by (meson s4 s5 s6 s7 s8 s9 shrinks_trans)
  have s29: "shrinks w2 w9"
    by (meson s3 s39 shrinks_trans)
  have s19: "shrinks w1 w9"
    by (meson s2 s29 shrinks_trans)
  have sh: "shrinks w w9"
    by (meson s1 s19 shrinks_trans)
  have socks: "\<forall>h \<in> sockets_of s. h \<notin> open_socks w9"
  proof
    fix h assume "h \<in> sockets_of s"
    then consider "video_socket s = Some h" | "audio_socket s = Some h" | "control_socket s = Some h"
      by (auto simp: sockets_of_def)
    then show "h \<notin> open_socks w9"
    proof cases
      case 1 then show ?thesis using v s19 by (auto simp: shrinks_def)
    next
      case 2 then show ?thesis using a s29 by (auto simp: shrinks_def)
    next
      case 3 then show ?thesis using c s39 by (auto simp: shrinks_def)
    qed
  qed
  have s79: "shrinks w7 w9"
    by (meson s8 s9 shrinks_trans)
  have procs: "signals_delivered E \<longrightarrow> (\<forall>p. android_process s = Some p \<longrightarrow> p \<notin> live_procs w9)"
    using p s79 by (auto simp: shrinks_def)
  have s49: "shrinks w4 w9" by (meson s5 s6 s7 s8 s9 shrinks_trans)
  have s59: "shrinks w5 w9" by (meson s6 s7 s8 s9 shrinks_trans)
  have s69: "shrinks w6 w9" by (meson s7 s8 s9 shrinks_trans)
  have threads: "joins_complete E \<longrightarrow> (\<forall>t \<in> threads_of s. t \<notin> alive_threads w9)"
  proof (intro impI ballI)
    fix t assume jc: "joins_complete E" and "t \<in> threads_of s"
    then consider "video_thread s = Some t" | "audio_thread s = Some t"
      | "control_thread s = Some t" | "android_thread s = Some t"
      by (auto simp: threads_of_def)
    then show "t \<notin> alive_threads w9"
    proof cases
      case 1 then show ?thesis using j4 jc s49 by (auto simp: shrinks_def)
    next
      case 2 then show ?thesis using j5 jc s59 by (auto simp: shrinks_def)
    next
      case 3 then show ?thesis using j6 jc s69 by (auto simp: shrinks_def)
    next
      case 4 then show ?thesis using j8 jc s9 by (auto simp: shrinks_def)
    qed
  qed
  have c8w: "cmds w8 = cmds w"
    by (simp add: c1 c2 c3 c4 c5 c6 c7 c8)
  have cm: "cmds w9 = cmds w @ (if port_truthy (local_port s) then [forward_remove_cmd s] else [])"
  proof (cases "port_truthy (local_port s)")
    case True
    then show ?thesis using c9 c8w by simp
  next
    case False
    then have "w9 = w8" using n9 by simp
    then show ?thesis using c8w False by simp
  qed
  from run sh socks procs threads cm show ?thesis by blast
qed

subsection \<open>The start sequence, phase by phase\<close>

lemma connect_and_start_workers_frame:
  "connect_and_start_workers E (s1, w1) = (r, (s2, w2)) \<Longrightarrow>
   local_port s2 = local_port s1 \<and> android_process s2 = android_process s1
   \<and> open_socks w2 \<subseteq> open_socks w1 \<union> sockets_of s2
   \<and> live_procs w2 = live_procs w1 \<and> cmds w2 = cmds w1"
  unfolding connect_and_start_workers_def open_channel_def new_thread_def prog_defs world_defs
    sockets_of_def
  by (auto split: if_splits)

lemma subprocess_run_frame:
  "on_world (subprocess_run E chk cmd) (s, w) = (r, (s', w')) \<Longrightarrow>
   s' = s \<and> open_socks w' = open_socks w \<and> live_procs w' = live_procs w
   \<and> alive_threads w' = alive_threads w"
  by (auto simp: on_world_def world_defs split: run_outcome.splits if_splits)

lemma push_server_to_device_frame:
  "push_server_to_device E (s, w) = (r, (s', w')) \<Longrightarrow>
   s' = s \<and> open_socks w' = open_socks w \<and> live_procs w' = live_procs w
   \<and> alive_threads w' = alive_threads w"
  by (auto simp: push_server_to_device_def prog_defs world_defs
           split: run_outcome.splits if_splits)

lemma setup_adb_forward_spec:
  assumes "setup_adb_forward E (s, w) = (Ret u, (s', w'))"
  shows "(\<exists>p. BASE_PORT \<le> p \<and> s' = s\<lparr>local_port := Some p\<rparr>)
         \<and> open_socks w' = open_socks w \<and> live_procs w' = live_procs w"
proof -
  obtain wc where c: "cleanup_adb_forward E (s, w) = (Ret (), (after_cleanup s, wc))"
    and co: "open_socks wc = open_socks w" and cl: "live_procs wc = live_procs w"
    using cleanup_adb_forward_spec [of E s w] by auto
  from assms have r: "pbind (\<lambda>st. (find_available_port_default (bind_out E), st)) (\<lambda>port.
     pbind (modify (\<lambda>s. s\<lparr>local_port := Some port\<rparr>)) (\<lambda>u st.
     pbind (on_world (subprocess_run E True (forward_cmd (fst st)))) (\<lambda>result. ret ()) st))
       (after_cleanup s, wc) = (Ret u, (s', w'))"
    unfolding setup_adb_forward_def
    by (simp add: pbind_Ret [of "cleanup_adb_forward E" "(s, w)" "()" "(after_cleanup s, wc)", OF c])
  then obtain port st1 where f: "find_available_port_default (bind_out E) = Ret port"
    and st1: "st1 = (after_cleanup s, wc)"
    and r2: "pbind (modify (\<lambda>s. s\<lparr>local_port := Some port\<rparr>)) (\<lambda>u st.
       pbind (on_world (subprocess_run E True (forward_cmd (fst st)))) (\<lambda>result. ret ()) st) st1
        = (Ret u, (s', w'))"
    by (rule pbind_RetE) auto
  have lb: "BASE_PORT \<le> port"
    using f unfolding find_available_port_default_def by (rule find_available_port_lower_bound)
  have upd: "(after_cleanup s)\<lparr>local_port := Some port\<rparr> = s\<lparr>local_port := Some port\<rparr>"
    by (simp add: after_cleanup_def)
  from r2 obtain result st2 where
    "on_world (subprocess_run E True (forward_cmd (s\<lparr>local_port := Some port\<rparr>)))
       (s\<lparr>local_port := Some port\<rparr>, wc) = (Ret result, st2)"
    and "ret () st2 = (Ret u, (s', w'))"
    unfolding pbind_modify st1 by (simp add: upd) (erule pbind_RetE)
  then have "s' = s\<lparr>local_port := Some port\<rparr> \<and> open_socks w' = open_socks wc
      \<and> live_procs w' = live_procs wc"
    using subprocess_run_frame by (cases st2) (fastforce simp: ret_def)
  with lb co cl show ?thesis by auto
qed

lemma launcher_frame:
  "pbind (new_thread (\<lambda>t s. s\<lparr>android_thread := t\<rparr>)) (\<lambda>t.
     pbind (on_world (thread_start E t)) (\<lambda>u.
     pbind (start_server E t) (\<lambda>u. ret True))) (s, w) = (Ret True, (s1, w1)) \<Longrightarrow>
   local_port s1 = local_port s \<and> open_socks w1 = open_socks w
   \<and> live_procs w1 \<subseteq> live_procs w \<union> set_option (android_process s1)"
  by (auto simp: start_server_def new_thread_def prog_defs world_defs split: if_splits)

lemma start_prepare_spec:
  assumes "start_prepare E callback rate (s, w) = (Ret True, (s1, w1))"
  shows "(\<exists>p. BASE_PORT \<le> p \<and> local_port s1 = Some p)
         \<and> open_socks w1 = open_socks w
         \<and> live_procs w1 \<subseteq> live_procs w \<union> set_option (android_process s1)"
proof -
  let ?s0 = "s\<lparr>video_bit_rate := Some rate, video_callback := Some callback, stop := Some False\<rparr>"
  from assms obtain result sa wa where
    a: "on_world (subprocess_run E False (devices_cmd ?s0)) (?s0, w) = (Ret result, (sa, wa))"
    and a': "(if \<not> str_in ''device'' (stdout result) then ret False
       else pbind (push_server_to_device E) (\<lambda>pushed.
           if \<not> pushed then ret False
           else
             pbind (setup_adb_forward E) (\<lambda>u.
             pbind (new_thread (\<lambda>t s. s\<lparr>android_thread := t\<rparr>)) (\<lambda>t.
             pbind (on_world (thread_start E t)) (\<lambda>u.
             pbind (start_server E t) (\<lambda>u.
                    ret True)))))) (sa, wa) = (Ret True, (s1, w1))"
    unfolding start_prepare_def pbind_modify by simp (erule pbind_RetE, force)
  have fa: "sa = ?s0" "open_socks wa = open_socks w" "live_procs wa = live_procs w"
    using subprocess_run_frame [OF a] by auto
  from a' obtain pushed sb wb where
    b: "push_server_to_device E (sa, wa) = (Ret pushed, (sb, wb))"
    and b': "(if \<not> pushed then ret False
           else
             pbind (setup_adb_forward E) (\<lambda>u.
             pbind (new_thread (\<lambda>t s. s\<lparr>android_thread := t\<rparr>)) (\<lambda>t.
             pbind (on_world (thread_start E t)) (\<lambda>u.
             pbind (start_server E t) (\<lambda>u.
                    ret True))))) (sb, wb) = (Ret True, (s1, w1))"
    by (cases "str_in ''device'' (stdout result)") (simp_all add: ret_def, erule pbind_RetE, force)
  have fb: "sb = sa" "open_socks wb = open_socks wa" "live_procs wb = live_procs wa"
    using push_server_to_device_frame [OF b] by auto
  from b' obtain u sc wc where
    c: "setup_adb_forward E (sb, wb) = (Ret u, (sc, wc))"
    and c': "pbind (new_thread (\<lambda>t s. s\<lparr>android_thread := t\<rparr>)) (\<lambda>t.
             pbind (on_world (thread_start E t)) (\<lambda>u.
             pbind (start_server E t) (\<lambda>u.
                    ret True))) (sc, wc) = (Ret True, (s1, w1))"
    by (cases pushed) (simp_all add: ret_def, erule pbind_RetE, force)
  from setup_adb_forward_spec [OF c] obtain p where
    p: "BASE_PORT \<le> p" "local_port sc = Some p"
    and fc: "open_socks wc = open_socks wb" "live_procs wc = live_procs wb"
    by auto
  from launcher_frame [OF c'] p fa fb fc show ?thesis by auto
qed

subsection \<open>The port a session holds is never 0\<close>

text \<open>
  \<open>port_held_ok\<close> holds of a new session and is kept by every method, whether it
  returns or raises: the only port ever stored comes from \<open>find_available_port\<close>.
\<close>

lemma keepsI: "(\<And>s w r s' w'. P s \<Longrightarrow> m (s, w) = (r, (s', w')) \<Longrightarrow> P s') \<Longrightarrow> keeps P m"
  unfolding keeps_def by blast

lemma keepsD: "keeps P m \<Longrightarrow> P s \<Longrightarrow> m (s, w) = (r, (s', w')) \<Longrightarrow> P s'"
  unfolding keeps_def by blast

lemma keeps_ret: "keeps P (ret x)"
  by (rule keepsI) (simp add: ret_def)

lemma keeps_on_world: "keeps P (on_world op)"
  by (rule keepsI) (auto simp: on_world_def split: prod.splits)

lemma keeps_modify: "(\<And>s. P s \<Longrightarrow> P (g s)) \<Longrightarrow> keeps P (modify g)"
  by (rule keepsI) (auto simp: modify_def)

lemma keeps_pbind:
  assumes "keeps P m" and "\<And>x. keeps P (f x)"
  shows "keeps P (pbind m f)"
proof (rule keepsI)
  fix s w r s' w'
  assume P: "P s" and run: "pbind m f (s, w) = (r, (s', w'))"
  obtain r1 s1 w1 where m: "m (s, w) = (r1, (s1, w1))"
    by (metis prod.exhaust)
  have P1: "P s1" by (rule keepsD [OF assms(1) P m])
  show "P s'"
  proof (cases r1)
    case (Ret x)
    with run m have "f x (s1, w1) = (r, (s', w'))" by (simp add: pbind_def)
    then show ?thesis by (rule keepsD [OF assms(2) P1])
  next
    case (Raise e)
    with run m have "s' = s1" by (simp add: pbind_def)
    with P1 show ?thesis by simp
  qed
qed

lemma keeps_catch_if:
  assumes "keeps P m" and "\<And>e. keeps P (h e)"
  shows "keeps P (catch_if c m h)"
proof (rule keepsI)
  fix s w r s' w'
  assume P: "P s" and run: "catch_if c m h (s, w) = (r, (s', w'))"
  obtain r1 s1 w1 where m: "m (s, w) = (r1, (s1, w1))"
    by (metis prod.exhaust)
  have P1: "P s1" by (rule keepsD [OF assms(1) P m])
  show "P s'"
  proof (cases r1)
    case (Ret x)
    with run m have "s' = s1" by (simp add: catch_if_def)
    with P1 show ?thesis by simp
  next
    case (Raise e)
    show ?thesis
    proof (cases "c e")
      case True
      with run m Raise have "h e (s1, w1) = (r, (s', w'))" by (simp add: catch_if_def)
      then show ?thesis by (rule keepsD [OF assms(2) P1])
    next
      case False
      with run m Raise have "s' = s1" by (simp add: catch_if_def)
      with P1 show ?thesis by simp
    qed
  qed
qed

lemma keeps_state: "(\<And>st0. keeps P (f st0)) \<Longrightarrow> keeps P (\<lambda>st. f st st)"
  unfolding keeps_def by blast

lemma keeps_if: "keeps P a \<Longrightarrow> keeps P b \<Longrightarrow> keeps P (if c then a else b)"
  by simp

lemma keeps_unchanged:
  "(\<And>s w r s' w'. m (s, w) = (r, (s', w')) \<Longrightarrow> local_port s' = local_port s) \<Longrightarrow>
   keeps port_held_ok m"
  by (rule keepsI) (simp add: port_held_ok_def)

lemma keeps_cleanup: "keeps port_held_ok (cleanup_adb_forward E)"
proof (rule keepsI)
  fix s w r s' w'
  assume "port_held_ok s" and run: "cleanup_adb_forward E (s, w) = (r, (s', w'))"
  obtain w1 where "cleanup_adb_forward E (s, w) = (Ret (), (after_cleanup s, w1))"
    using cleanup_adb_forward_spec [of E s w] by blast
  with run have "s' = after_cleanup s" by simp
  with \<open>port_held_ok s\<close> show "port_held_ok s'"
    by (simp add: port_held_ok_def after_cleanup_def)
qed

lemma keeps_push: "keeps port_held_ok (push_server_to_device E)"
  by (rule keeps_unchanged) (drule push_server_to_device_frame, simp)

lemma keeps_new_thread: "keeps port_held_ok (new_thread (\<lambda>t s. s\<lparr>android_thread := t\<rparr>))"
  by (rule keeps_unchanged) (auto simp: new_thread_def split: prod.splits)

lemma keeps_start_server: "keeps port_held_ok (start_server E t)"
  by (rule keeps_unchanged) (auto simp: start_server_def Let_def split: if_splits)

lemma keeps_connect: "keeps port_held_ok (connect_and_start_workers E)"
  by (rule keeps_unchanged) (drule connect_and_start_workers_frame, simp)

lemma keeps_stop: "keeps port_held_ok (scrcpy_stop E)"
proof (rule keepsI)
  fix s w r s' w'
  assume "port_held_ok s" and run: "scrcpy_stop E (s, w) = (r, (s', w'))"
  obtain w1 where "scrcpy_stop E (s, w) = (Ret (), (after_cleanup (s\<lparr>stop := Some True\<rparr>), w1))"
    using scrcpy_stop_spec [of E s w] by blast
  with run have "s' = after_cleanup (s\<lparr>stop := Some True\<rparr>)" by simp
  with \<open>port_held_ok s\<close> show "port_held_ok s'"
    by (simp add: port_held_ok_def after_cleanup_def)
qed

lemma keeps_setup: "keeps port_held_ok (setup_adb_forward E)"
proof (rule keepsI)
  fix s w r s' w'
  assume ok: "port_held_ok s" and run: "setup_adb_forward E (s, w) = (r, (s', w'))"
  obtain wc where c: "cleanup_adb_forward E (s, w) = (Ret (), (after_cleanup s, wc))"
    using cleanup_adb_forward_spec [of E s w] by blast
  have ac: "port_held_ok (after_cleanup s)"
    using ok by (simp add: port_held_ok_def after_cleanup_def)
  show "port_held_ok s'"
  proof (cases "find_available_port_default (bind_out E)")
    case (Raise x)
    with run c have "s' = after_cleanup s"
      by (simp add: setup_adb_forward_def pbind_def)
    with ac show ?thesis by simp
  next
    case (Ret port)
    then have "BASE_PORT \<le> port"
      unfolding find_available_port_default_def by (rule find_available_port_lower_bound)
    moreover from run c Ret have "s' = (after_cleanup s)\<lparr>local_port := Some port\<rparr>"
      by (auto simp: setup_adb_forward_def prog_defs split: prod.splits res.splits)
    ultimately show ?thesis by (simp add: port_held_ok_def BASE_PORT_def)
  qed
qed

lemma keeps_start_prepare: "keeps port_held_ok (start_prepare E callback rate)"
proof -
  have inner: "keeps port_held_ok
     (pbind (on_world (subprocess_run E False (devices_cmd (fst st0)))) (\<lambda>result.
       if \<not> str_in ''device'' (stdout result) then ret False
       else
         pbind (push_server_to_device E) (\<lambda>pushed.
           if \<not> pushed then ret False
           else
             pbind (setup_adb_forward E) (\<lambda>u.
             pbind (new_thread (\<lambda>t s. s\<lparr>android_thread := t\<rparr>)) (\<lambda>t.
             pbind (on_world (thread_start E t)) (\<lambda>u.
             pbind (start_server E t) (\<lambda>u.
                    ret True)))))))" for st0
    by (intro keeps_pbind keeps_on_world keeps_ret keeps_if
          keeps_push keeps_setup keeps_new_thread keeps_start_server)
  show ?thesis
    unfolding start_prepare_def
    by (rule keeps_pbind, rule keeps_modify, simp add: port_held_ok_def,
        rule keeps_state, rule inner)
qed

lemma keeps_scrcpy_start: "keeps port_held_ok (scrcpy_start E callback rate)"
  unfolding scrcpy_start_def connect_phase_def
  by (intro keeps_pbind keeps_catch_if keeps_if keeps_ret keeps_start_prepare keeps_connect
        keeps_stop)

lemma port_held_ok_init: "port_held_ok (Scrcpy_init path)"
  by (simp add: port_held_ok_def Scrcpy_init_def)

subsection \<open>Removing the forward\<close>

text \<open>
  Claim C10. The session states are those with \<open>local_port\<close> equal to \<open>None\<close> or
  to a non-zero port: a new session is one, and \<open>scrcpy_start\<close> and
  \<open>scrcpy_stop\<close> keep the property (\<open>keeps_scrcpy_start\<close>, \<open>keeps_stop\<close>),
  since the only port ever stored is a result of \<open>find_available_port\<close>, at least
  6666. From such a state \<open>cleanup_adb_forward\<close> returns without raising
  and leaves \<open>local_port = None\<close>, whatever the removal command does (exit status,
  exception). With \<open>local_port\<close> already \<open>None\<close> it changes nothing and issues no
  command; otherwise it issues exactly one removal command, for that port. A second call
  right after the first is therefore a no-op.
\<close>

theorem cleanup_adb_forward_releases:
  "local_port s \<noteq> Some 0 \<Longrightarrow>
   \<exists>w'. cleanup_adb_forward E (s, w) = (Ret (), (s\<lparr>local_port := None\<rparr>, w'))
       \<and> (local_port s = None \<longrightarrow> w' = w)
       \<and> (local_port s \<noteq> None \<longrightarrow> cmds w' = cmds w @ [forward_remove_cmd s])
       \<and> cleanup_adb_forward E (s\<lparr>local_port := None\<rparr>, w') = (Ret (), (s\<lparr>local_port := None\<rparr>, w'))"
proof -
  assume p: "local_port s \<noteq> Some 0"
  obtain w' where a: "cleanup_adb_forward E (s, w) = (Ret (), (after_cleanup s, w'))"
    and b: "\<not> port_truthy (local_port s) \<longrightarrow> w' = w"
    and c: "port_truthy (local_port s) \<longrightarrow> cmds w' = cmds w @ [forward_remove_cmd s]"
    using cleanup_adb_forward_spec [of E s w] by auto
  have again: "cleanup_adb_forward E (s\<lparr>local_port := None\<rparr>, w') = (Ret (), (s\<lparr>local_port := None\<rparr>, w'))"
    by (simp add: cleanup_adb_forward_def port_truthy_def)
  show ?thesis
    using a b c again by (auto simp: after_cleanup_port [OF p] port_truthy_iff [OF p])
qed

text \<open>
  A session with port 6666 forwarded, and an adb program that cannot even be run: the
  port is cleared all the same, after one attempt; on a session without a port nothing
  happens.
\<close>

theorem cleanup_adb_forward_releases_witness:
  "cleanup_adb_forward env_no_adb (session_forwarded, world0) =
     (Ret (), (session0, world0\<lparr>clock := 1, cmds := [forward_remove_cmd session_forwarded]\<rparr>))
   \<and> cleanup_adb_forward env_no_adb (session0, world0) = (Ret (), (session0, world0))"
proof -
  have p: "local_port session_forwarded \<noteq> Some 0"
    by (simp add: session_forwarded_def)
  have e: "session_forwarded\<lparr>local_port := None\<rparr> = session0"
    by (simp add: session_forwarded_def session0_def Scrcpy_init_def)
  obtain w' where a: "cleanup_adb_forward env_no_adb (session_forwarded, world0) = (Ret (), (session0, w'))"
    and b: "cleanup_adb_forward env_no_adb (session0, w') = (Ret (), (session0, w'))"
    using cleanup_adb_forward_releases [OF p, of env_no_adb world0] e by auto
  have "cleanup_adb_forward env_no_adb (session_forwarded, world0) =
     (Ret (), (session0, world0\<lparr>clock := 1, cmds := [forward_remove_cmd session_forwarded]\<rparr>))"
    by (simp add: session_defs prog_defs world_defs concrete_defs)
  moreover have "cleanup_adb_forward env_no_adb (session0, world0) = (Ret (), (session0, world0))"
    using cleanup_adb_forward_releases [of session0 env_no_adb world0]
    by (auto simp: session0_def Scrcpy_init_def)
  ultimately show ?thesis by simp
qed

subsection \<open>Stopping twice\<close>

text \<open>
  Claim C4, as amended. From any session state (never started, partially started,
  running, already stopped) two calls of \<open>scrcpy_stop\<close> in a row both return without
  raising. After each call the stop flag is set, \<open>local_port\<close> is \<open>None\<close>, every
  socket the session holds is closed, and nothing new exists in the world; the first call
  issues the forward-removal command when a port was allocated, the second call issues no
  command. The socket, thread and process fields keep their handles. The child process is
  gone when \<open>terminate\<close>, \<open>wait\<close> and \<open>kill\<close> do not raise, and the workers
  are gone when every \<open>join\<close> returns with its thread finished: neither is
  guaranteed otherwise.
\<close>

theorem scrcpy_stop_twice:
  "local_port s \<noteq> Some 0 \<Longrightarrow>
   \<exists>w1 w2.
     scrcpy_stop E (s, w) = (Ret (), (s\<lparr>stop := Some True, local_port := None\<rparr>, w1))
     \<and> scrcpy_stop E (s\<lparr>stop := Some True, local_port := None\<rparr>, w1)
         = (Ret (), (s\<lparr>stop := Some True, local_port := None\<rparr>, w2))
     \<and> shrinks w w1 \<and> shrinks w1 w2
     \<and> (\<forall>h \<in> sockets_of s. h \<notin> open_socks w1 \<and> h \<notin> open_socks w2)
     \<and> cmds w1 = cmds w @ (if local_port s = None then [] else [forward_remove_cmd s])
     \<and> cmds w2 = cmds w1
     \<and> (signals_delivered E \<longrightarrow>
          (\<forall>p. android_process s = Some p \<longrightarrow> p \<notin> live_procs w1 \<and> p \<notin> live_procs w2))
     \<and> (joins_complete E \<longrightarrow>
          (\<forall>t \<in> threads_of s. t \<notin> alive_threads w1 \<and> t \<notin> alive_threads w2))"
proof -
  assume p: "local_port s \<noteq> Some 0"
  let ?s' = "s\<lparr>stop := Some True, local_port := None\<rparr>"
  have ac: "after_cleanup (s\<lparr>stop := Some True\<rparr>) = ?s'"
    using p by (simp add: after_cleanup_port)
  have ac': "after_cleanup (?s'\<lparr>stop := Some True\<rparr>) = ?s'"
    by (simp add: after_cleanup_def port_truthy_def)
  obtain w1 where 1: "scrcpy_stop E (s, w) = (Ret (), (?s', w1))"
    and s1: "shrinks w w1"
    and k1: "\<forall>h \<in> sockets_of s. h \<notin> open_socks w1"
    and p1: "signals_delivered E \<longrightarrow> (\<forall>p. android_process s = Some p \<longrightarrow> p \<notin> live_procs w1)"
    and t1: "joins_complete E \<longrightarrow> (\<forall>t \<in> threads_of s. t \<notin> alive_threads w1)"
    and c1: "cmds w1 = cmds w @ (if port_truthy (local_port s) then [forward_remove_cmd s] else [])"
    using scrcpy_stop_spec [of E s w] unfolding ac by auto
  obtain w2 where 2: "scrcpy_stop E (?s', w1) = (Ret (), (?s', w2))"
    and s2: "shrinks w1 w2"
    and c2: "cmds w2 = cmds w1 @ (if port_truthy (local_port ?s') then [forward_remove_cmd ?s'] else [])"
    using scrcpy_stop_spec [of E ?s' w1] unfolding ac' by auto
  have c2': "cmds w2 = cmds w1" using c2 by (simp add: port_truthy_def)
  have c1': "cmds w1 = cmds w @ (if local_port s = None then [] else [forward_remove_cmd s])"
    using c1 port_truthy_iff [OF p] by simp
  have k2: "\<forall>h \<in> sockets_of s. h \<notin> open_socks w2"
    using k1 s2 by (auto simp: shrinks_def)
  have p2: "signals_delivered E \<longrightarrow> (\<forall>p. android_process s = Some p \<longrightarrow> p \<notin> live_procs w2)"
    using p1 s2 by (auto simp: shrinks_def)
  have t2: "joins_complete E \<longrightarrow> (\<forall>t \<in> threads_of s. t \<notin> alive_threads w2)"
    using t1 s2 by (auto simp: shrinks_def)
  show ?thesis
    using 1 2 s1 s2 k1 k2 c1' c2' p1 p2 t1 t2 by blast
qed

lemma run_stuck_start:
  "scrcpy_start env_stuck 0 ''1024000'' (session0, world0) = (Ret True, (running_session, running_world))"
  by (simp add: session_defs prog_defs world_defs concrete_defs upt_100
      running_session_def running_world_def)

lemma run_stuck_stop:
  "scrcpy_stop env_stuck (running_session, running_world) =
     (Ret (),
      (running_session\<lparr>stop := Some True, local_port := None\<rparr>,
       running_world\<lparr>clock := 27, cmds := cmds running_world @ [forward_remove_cmd running_session],
                      open_socks := {}, live_procs := {}\<rparr>))"
  by (simp add: session_defs prog_defs world_defs concrete_defs
      running_session_def running_world_def)

lemma run_stuck_stop_again:
  "scrcpy_stop env_stuck
     (running_session\<lparr>stop := Some True, local_port := None\<rparr>,
      running_world\<lparr>clock := 27, cmds := cmds running_world @ [forward_remove_cmd running_session],
                     open_socks := {}, live_procs := {}\<rparr>) =
     (Ret (),
      (running_session\<lparr>stop := Some True, local_port := None\<rparr>,
       running_world\<lparr>clock := 39, cmds := cmds running_world @ [forward_remove_cmd running_session],
                      open_socks := {}, live_procs := {}\<rparr>))"
  by (simp add: session_defs prog_defs world_defs concrete_defs
      running_session_def running_world_def)

text \<open>
  Claim C4 as stated fails on the workers: a session started successfully whose workers
  do not finish within the three-second join timeout. Both stops return normally, and the
  video worker (thread 5) is still alive afterwards; the session still holds its handle.
\<close>

theorem scrcpy_stop_twice_counterexample:
  "scrcpy_start env_stuck 0 ''1024000'' (session0, world0) = (Ret True, (running_session, running_world))
   \<and> scrcpy_stop env_stuck (running_session, running_world)
       = (Ret (), (stopped_session, stopped_world\<lparr>clock := 27\<rparr>))
   \<and> scrcpy_stop env_stuck (stopped_session, stopped_world\<lparr>clock := 27\<rparr>)
       = (Ret (), (stopped_session, stopped_world))
   \<and> video_thread stopped_session = Some 5
   \<and> 5 \<in> alive_threads stopped_world"
  using run_stuck_start run_stuck_stop run_stuck_stop_again
  by (simp add: stopped_session_def stopped_world_def running_session_def running_world_def)

lemma env_ok_delivers: "signals_delivered env_ok \<and> joins_complete env_ok"
  by (simp add: signals_delivered_def joins_complete_def concrete_defs)

text \<open>
  The running session under an environment in which every call succeeds.
\<close>

theorem scrcpy_stop_twice_witness:
  "\<exists>w1 w2. scrcpy_stop env_ok (running_session, running_world) = (Ret (), (stopped_session, w1))
     \<and> scrcpy_stop env_ok (stopped_session, w1) = (Ret (), (stopped_session, w2))
     \<and> 2 \<notin> open_socks w2 \<and> 3 \<notin> open_socks w2 \<and> 4 \<notin> open_socks w2
     \<and> 1 \<notin> live_procs w2 \<and> 5 \<notin> alive_threads w2
     \<and> cmds w2 = cmds running_world @ [forward_remove_cmd running_session]"
proof -
  have p: "local_port running_session \<noteq> Some 0"
    by (simp add: running_session_def)
  have s: "sockets_of running_session = {2, 3, 4}" "threads_of running_session = {5, 6, 7, 0}"
    "android_process running_session = Some 1" "local_port running_session \<noteq> None"
    by (auto simp: sockets_of_def threads_of_def running_session_def)
  from scrcpy_stop_twice [OF p, of env_ok running_world] env_ok_delivers s
  show ?thesis
    unfolding stopped_session_def by fastforce
qed

subsection \<open>A start that fails while connecting\<close>

text \<open>
  Claim C1, as amended. Take a run of \<open>scrcpy_start\<close> that reaches the \<open>try\<close>
  block (\<open>start_prepare\<close> returned \<open>True\<close>) and in which opening a channel or
  starting a worker raises. Then \<open>scrcpy_start\<close> returns \<open>False\<close>, and the state
  it leaves is the one \<open>scrcpy_stop\<close> produces from the state at the failure. In that
  state \<open>local_port\<close> is \<open>None\<close> and one forward-removal command has been issued
  for the port; every socket the session holds is closed and no socket opened by the run
  is left open; and, when \<open>terminate\<close>, \<open>wait\<close> and \<open>kill\<close> do not raise,
  the process the session holds is gone and no process spawned by the run is left.
\<close>

theorem failed_connect_runs_stop:
  "start_prepare E callback rate (s, w) = (Ret True, (s1, w1)) \<Longrightarrow>
   connect_and_start_workers E (s1, w1) = (Raise e, (s2, w2)) \<Longrightarrow>
   \<exists>w'. scrcpy_start E callback rate (s, w)
          = (Ret False, (s2\<lparr>stop := Some True, local_port := None\<rparr>, w'))
       \<and> scrcpy_stop E (s2, w2) = (Ret (), (s2\<lparr>stop := Some True, local_port := None\<rparr>, w'))
       \<and> (\<forall>h \<in> sockets_of s2. h \<notin> open_socks w')
       \<and> open_socks w' \<subseteq> open_socks w
       \<and> local_port s2 \<noteq> None
       \<and> cmds w' = cmds w2 @ [forward_remove_cmd s2]
       \<and> (signals_delivered E \<longrightarrow>
            (\<forall>p. android_process s2 = Some p \<longrightarrow> p \<notin> live_procs w')
            \<and> live_procs w' \<subseteq> live_procs w)"
proof -
  assume prep: "start_prepare E callback rate (s, w) = (Ret True, (s1, w1))"
    and conn: "connect_and_start_workers E (s1, w1) = (Raise e, (s2, w2))"
  from start_prepare_spec [OF prep] obtain p where
    p: "BASE_PORT \<le> p" "local_port s1 = Some p"
    and o1: "open_socks w1 = open_socks w"
    and l1: "live_procs w1 \<subseteq> live_procs w \<union> set_option (android_process s1)"
    by auto
  from connect_and_start_workers_frame [OF conn] have
    f: "local_port s2 = local_port s1" "android_process s2 = android_process s1"
    and o2: "open_socks w2 \<subseteq> open_socks w1 \<union> sockets_of s2"
    and l2: "live_procs w2 = live_procs w1"
    by auto
  have port: "local_port s2 = Some p" "p \<noteq> 0"
    using p f by (auto simp: BASE_PORT_def)
  then have ac: "after_cleanup (s2\<lparr>stop := Some True\<rparr>) = s2\<lparr>stop := Some True, local_port := None\<rparr>"
    by (simp add: after_cleanup_def port_truthy_def)
  obtain w' where stop: "scrcpy_stop E (s2, w2) = (Ret (), (s2\<lparr>stop := Some True, local_port := None\<rparr>, w'))"
    and sh: "shrinks w2 w'"
    and k: "\<forall>h \<in> sockets_of s2. h \<notin> open_socks w'"
    and pr: "signals_delivered E \<longrightarrow> (\<forall>p. android_process s2 = Some p \<longrightarrow> p \<notin> live_procs w')"
    and cm: "cmds w' = cmds w2 @ (if port_truthy (local_port s2) then [forward_remove_cmd s2] else [])"
    using scrcpy_stop_spec [of E s2 w2] unfolding ac by auto
  have run: "scrcpy_start E callback rate (s, w)
      = (Ret False, (s2\<lparr>stop := Some True, local_port := None\<rparr>, w'))"
    by (simp add: scrcpy_start_def connect_phase_def pbind_def catch_if_def is_Exception_def
        ret_def prep conn stop)
  have socks: "open_socks w' \<subseteq> open_socks w"
    using sh k o2 o1 by (auto simp: shrinks_def)
  have procs: "signals_delivered E \<longrightarrow> live_procs w' \<subseteq> live_procs w"
    using sh pr l1 l2 f by (auto simp: shrinks_def)
  have cm': "cmds w' = cmds w2 @ [forward_remove_cmd s2]"
    using cm port by (simp add: port_truthy_def)
  from run stop k socks port cm' pr procs show ?thesis by auto
qed

lemma run_refused_term:
  "scrcpy_start env_refused_term 0 ''1024000'' (session0, world0) =
     (Ret False,
      (session0\<lparr>video_socket := Some 2, android_thread := Some 0, android_process := Some 1,
                stop := Some True, video_bit_rate := Some ''1024000'', video_callback := Some 0\<rparr>,
       \<lparr>clock = 12,
        cmds = [devices_cmd session0, push_cmd session0, forward_cmd session_forwarded,
                server_cmd running_session, forward_remove_cmd session_forwarded],
        open_socks = {}, alive_threads = {}, live_procs = {1}, next_id = 3\<rparr>))"
  by (simp add: session_defs prog_defs world_defs concrete_defs upt_100 running_session_def)

text \<open>
  Claim C1 as stated fails on the remote process: the connection is refused and
  \<open>terminate\<close> raises. The start returns \<open>False\<close> with sockets closed and the
  port cleared, and the process it launched (process 1) is still alive: the handler
  around \<open>terminate\<close> swallows the error.
\<close>

theorem failed_connect_counterexample:
  "scrcpy_start env_refused_term 0 ''1024000'' (session0, world0)
     = (Ret False, (refused_session, refused_world\<lparr>live_procs := {1}\<rparr>))
   \<and> android_process refused_session = Some 1
   \<and> 1 \<in> live_procs (refused_world\<lparr>live_procs := {1}\<rparr>)"
  using run_refused_term by (simp add: refused_session_def refused_world_def)

lemma signals_delivered_refused: "signals_delivered env_refused"
  by (simp add: signals_delivered_def concrete_defs)

lemma prepare_refused:
  "start_prepare env_refused 0 ''1024000'' (session0, world0) = (Ret True, (prepared_session, prepared_world))"
  by (simp add: session_defs prog_defs world_defs concrete_defs upt_100
      prepared_session_def prepared_world_def running_session_def)

lemma connect_refused:
  "connect_and_start_workers env_refused (prepared_session, prepared_world) =
     (Raise OSError,
      (prepared_session\<lparr>video_socket := Some 2\<rparr>,
       prepared_world\<lparr>clock := 7, open_socks := {2}, next_id := 3\<rparr>))"
  by (simp add: session_defs prog_defs world_defs concrete_defs
      prepared_session_def prepared_world_def)

text \<open>
  The connection is refused and the signals are delivered: nothing of the failed start
  is left.
\<close>

theorem failed_connect_runs_stop_witness:
  "fst (scrcpy_start env_refused 0 ''1024000'' (session0, world0)) = Ret False
   \<and> local_port (fst (snd (scrcpy_start env_refused 0 ''1024000'' (session0, world0)))) = None
   \<and> open_socks (snd (snd (scrcpy_start env_refused 0 ''1024000'' (session0, world0)))) = {}
   \<and> live_procs (snd (snd (scrcpy_start env_refused 0 ''1024000'' (session0, world0)))) = {}"
  using failed_connect_runs_stop [OF prepare_refused connect_refused] signals_delivered_refused
  by (auto simp: world0_def)

subsection \<open>A start on a device that is not listed\<close>

lemma run_absent_eval:
  "scrcpy_start env_absent 0 ''1024000'' (session0, world0) =
     (Ret False,
      (session0\<lparr>video_bit_rate := Some ''1024000'', video_callback := Some 0, stop := Some False\<rparr>,
       world0\<lparr>clock := 2, cmds := [devices_cmd session0, push_cmd session0]\<rparr>))"
  by (simp add: session_defs prog_defs world_defs concrete_defs)

text \<open>
  Claim C2 at a device that is not in the listing. The listing has the header line only,
  so \<open>get_devices\<close> finds no device; the header contains the word \<open>devices\<close>, so
  the test \<open>"device" not in result.stdout\<close> does not fire and \<open>scrcpy_start\<close>
  issues the push command. It returns \<open>False\<close> only because the push fails.
\<close>

theorem absent_device_is_pushed_to:
  "get_devices (run_absent 0) ''adb'' = Ret []
   \<and> scrcpy_start env_absent 0 ''1024000'' (session0, world0) =
     (Ret False,
      (session0\<lparr>video_bit_rate := Some ''1024000'', video_callback := Some 0, stop := Some False\<rparr>,
       world0\<lparr>clock := 2, cmds := [devices_cmd session0, push_cmd session0]\<rparr>))"
  using run_absent_eval
  by (simp add: get_devices_def run_adb_command_def adb_argv_def concrete_defs push_cmd_def
      session_cmd_def py_strip_def py_isspace_def)

subsection \<open>A start whose forward command fails\<close>

text \<open>
  Claim C3 at a forward command that exits with status 1. \<open>scrcpy_start\<close> raises
  \<open>CalledProcessError\<close> (the call stands before the \<open>try\<close> block), the session
  still holds port 6666, and no removal command has been issued.
\<close>

theorem forward_failure_keeps_port:
  "scrcpy_start env_forward_fails 0 ''1024000'' (session0, world0) =
     (Raise CalledProcessError,
      (session0\<lparr>video_bit_rate := Some ''1024000'', video_callback := Some 0, stop := Some False,
                local_port := Some 6666\<rparr>,
       world0\<lparr>clock := 3, cmds := [devices_cmd session0, push_cmd session0,
                                    forward_cmd session_forwarded]\<rparr>))"
  by (simp add: session_defs prog_defs world_defs concrete_defs upt_100)

section \<open>Properties of the device manager\<close>
















end
